theory Spec2Isabelle
  imports Main "HOL-Library.Sublist" "HOL-Library.AList"
begin

section \<open>Strings and link selection\<close>

text \<open>
  Python's \<^verbatim>\<open>str.startswith\<close> and \<^verbatim>\<open>str.endswith\<close> compare characters exactly;
  there is no case folding anywhere in \<^verbatim>\<open>htmlAndZipVer10.py\<close>.
\<close>

definition startswith :: "string \<Rightarrow> string \<Rightarrow> bool" where
  "startswith s p = prefix p s"

definition endswith :: "string \<Rightarrow> string \<Rightarrow> bool" where
  "endswith s p = suffix p s"

text \<open>
  Line 21 rejects the URL when \<^verbatim>\<open>not pack_url.endswith(".zip") or not
  pack_url.startswith("http")\<close>; \<open>invalid_link\<close> is that condition.
\<close>

definition invalid_link :: "string \<Rightarrow> bool" where
  "invalid_link pack_url = (\<not> endswith pack_url ''.zip'' \<or> \<not> startswith pack_url ''http'')"

text \<open>
  Lines 138-142. The parsed document is represented by its anchor elements in document
  order, each with the value of \<^verbatim>\<open>link.get('href')\<close>: \<open>None\<close> when the attribute
  is absent. The loop appends to \<^verbatim>\<open>mod_links\<close>, which starts empty.
\<close>

definition keep_href :: "string option \<Rightarrow> bool" where
  "keep_href href =
     (case href of
        None \<Rightarrow> False
      | Some h \<Rightarrow> h \<noteq> [] \<and> (endswith h ''.jar'' \<or> endswith h ''.zip''))"

fun collect_links :: "string list \<Rightarrow> string option list \<Rightarrow> string list" where
  "collect_links mod_links [] = mod_links"
| "collect_links mod_links (href # anchors) =
     collect_links (if keep_href href then mod_links @ [the href] else mod_links) anchors"

definition find_mod_links :: "string option list \<Rightarrow> string list" where
  "find_mod_links anchors = collect_links [] anchors"

section \<open>The registry document\<close>

text \<open>
  What \<^verbatim>\<open>json.load\<close> returns. A Python \<^verbatim>\<open>dict\<close> keeps its keys in insertion
  order and holds each key once, so an object is an association list whose keys
  are distinct (\<open>dict_ok\<close>); assigning to a key replaces the value where the key
  stands, or appends the pair, which is \<open>AList.update\<close>. Only integers occur as
  numbers in the documents the installer builds.
\<close>

datatype json =
    JNull
  | JBool bool
  | JNum int
  | JStr string
  | JArr "json list"
  | JObj "(string \<times> json) list"


datatype exn =
    KeyError
  | TypeError
  | EOFError
  | FileNotFoundError
  | FileExistsError
  | NotADirectoryError
  | IsADirectoryError
  | SameFileError
  | ShutilError
  | URLError
  | ContentTooShortError
  | BadZipFile
  | RequestException
  | JSONDecodeError
  | UnicodeDecodeError
  | ValueError

fun getitem :: "json \<Rightarrow> string \<Rightarrow> exn + json" where
  "getitem (JObj kvs) k = (case map_of kvs k of None \<Rightarrow> Inl KeyError | Some v \<Rightarrow> Inr v)"
| "getitem _ k = Inl TypeError"

fun setitem :: "json \<Rightarrow> string \<Rightarrow> json \<Rightarrow> exn + json" where
  "setitem (JObj kvs) k v = Inr (JObj (AList.update k v kvs))"
| "setitem _ k v = Inl TypeError"

text \<open>Lines 88 and 92 (and 185, 189): the document used when none could be read.\<close>

definition default_profiles_data :: json where
  "default_profiles_data =
     JObj [(''profiles'', JObj []), (''settings'', JObj []), (''version'', JNum 2)]"

text \<open>Lines 98-108 (and 195-205): the entry, its fields in the order of the source.\<close>

definition profile_entry :: "string \<Rightarrow> string \<Rightarrow> string \<Rightarrow> json" where
  "profile_entry pack_name profile_version game_dir =
     JObj [(''name'', JStr pack_name),
           (''type'', JStr ''custom''),
           (''created'', JStr ''2024-01-01T00:00:00.000Z''),
           (''lastUsed'', JStr ''2024-01-01T00:00:00.000Z''),
           (''icon'', JStr ''Furnace''),
           (''lastVersionId'', JStr profile_version),
           (''javaDir'', JStr ''''),
           (''javaArgs'', JStr ''-Xmx4G''),
           (''gameDir'', JStr game_dir)]"

text \<open>
  \<^verbatim>\<open>profiles_data["profiles"][profile_id] = entry\<close>: the inner mapping is fetched
  (\<^verbatim>\<open>KeyError\<close> or \<^verbatim>\<open>TypeError\<close> when the document has none), the entry is stored
  in it, and since the document holds that very mapping, the document changes with
  it, at the place where \<^verbatim>\<open>"profiles"\<close> stands.
\<close>

definition set_profile :: "json \<Rightarrow> string \<Rightarrow> json \<Rightarrow> exn + json" where
  "set_profile profiles_data profile_id entry =
     (case getitem profiles_data ''profiles'' of
        Inl e \<Rightarrow> Inl e
      | Inr profiles \<Rightarrow>
          (case setitem profiles profile_id entry of
             Inl e \<Rightarrow> Inl e
           | Inr profiles' \<Rightarrow> setitem profiles_data ''profiles'' profiles'))"

text \<open>The profile mapping of a document, as a list of (name, entry) pairs.\<close>

definition profiles_of :: "json \<Rightarrow> (string \<times> json) list" where
  "profiles_of profiles_data =
     (case getitem profiles_data ''profiles'' of
        Inr (JObj ps) \<Rightarrow> ps
      | _ \<Rightarrow> [])"

section \<open>Paths\<close>

text \<open>
  \<^verbatim>\<open>Path(minecraft_dir).expanduser().resolve()\<close> is an absolute path without
  \<^verbatim>\<open>.\<close>, \<^verbatim>\<open>..\<close> or empty components; the installers below take it as their
  argument \<open>minecraft_path\<close>. A path is the list of its components below the root.
\<close>

type_synonym bytes = string
type_synonym path = "string list"

text \<open>\<^verbatim>\<open>s.split('/')\<close>.\<close>

fun splitc :: "string \<Rightarrow> string list" where
  "splitc [] = [[]]"
| "splitc (c # cs) =
     (if c = CHR ''/'' then [] # splitc cs
      else (case splitc cs of [] \<Rightarrow> [[c]] | x # xs \<Rightarrow> (c # x) # xs))"

text \<open>
  How \<^verbatim>\<open>pathlib\<close> reads a string: empty components and \<^verbatim>\<open>.\<close> are dropped,
  \<^verbatim>\<open>..\<close> is kept. The operator \<^verbatim>\<open>/\<close> appends the components of its right
  operand, and starts again from the root when that operand is absolute. An
  operand that starts with exactly two slashes has the root \<^verbatim>\<open>//\<close>, which
  \<^verbatim>\<open>pathlib\<close> keeps apart from \<^verbatim>\<open>/\<close>. The operating system looks up both
  in the same way, so the components are all that a lookup needs; the text of
  the path shows the difference (\<open>double_root\<close>, used in \<open>pack_game_dir\<close> below).
\<close>

definition py_parts :: "string \<Rightarrow> string list" where
  "py_parts s = filter (\<lambda>c. c \<noteq> [] \<and> c \<noteq> ''.'') (splitc s)"

definition pjoin :: "path \<Rightarrow> string \<Rightarrow> path" where
  "pjoin p s = (if startswith s ''/'' then py_parts s else p @ py_parts s)"

definition path_str :: "path \<Rightarrow> string" where
  "path_str p = (if p = [] then ''/'' else concat (map (\<lambda>c. CHR ''/'' # c) p))"

definition double_root :: "string \<Rightarrow> bool" where
  "double_root s = (startswith s ''//'' \<and> \<not> startswith s ''///'')"

text \<open>\<^verbatim>\<open>Path(s).name\<close> and \<^verbatim>\<open>os.path.basename(s)\<close>.\<close>

definition path_name :: "string \<Rightarrow> string" where
  "path_name s = (case rev (py_parts s) of [] \<Rightarrow> [] | c # cs \<Rightarrow> c)"

definition basename :: "string \<Rightarrow> string" where
  "basename s = last (splitc s)"

text \<open>\<^verbatim>\<open>os.path.normpath\<close> on the components of an absolute path.\<close>

definition normpath :: "path \<Rightarrow> path" where
  "normpath p =
     foldl (\<lambda>acc c. if c = [] \<or> c = ''.'' then acc
                     else if c = ''..'' then butlast acc else acc @ [c]) [] p"

section \<open>The file tree\<close>

text \<open>
  A tree without links: each path below the root holds a regular file or a
  directory; the root is a directory. The order of the list is the order in which
  a directory is listed. Failures that come from outside the tree (permissions, a
  full disk) are not part of the model.
\<close>

datatype node = File bytes | Dir

type_synonym tree = "(path \<times> node) list"

definition node_at :: "tree \<Rightarrow> path \<Rightarrow> node option" where
  "node_at t p = (if p = [] then Some Dir else map_of t p)"

text \<open>
  Path lookup as the operating system does it, one component at a time from
  directory \<open>d\<close>: every component is looked up in a directory, \<^verbatim>\<open>..\<close> leads to the
  parent, an empty component and \<^verbatim>\<open>.\<close> stay.
\<close>

fun walk :: "tree \<Rightarrow> path \<Rightarrow> string list \<Rightarrow> exn + path" where
  "walk t d [] = Inr d"
| "walk t d (c # cs) =
     (case node_at t d of
        None \<Rightarrow> Inl FileNotFoundError
      | Some (File b) \<Rightarrow> Inl NotADirectoryError
      | Some Dir \<Rightarrow>
          walk t (if c = [] \<or> c = ''.'' then d
                  else if c = ''..'' then butlast d else d @ [c]) cs)"

text \<open>
  A location is what a path text leads to, or the error of the lookup. \<open>abs_loc\<close>
  is for the absolute paths built with \<^verbatim>\<open>pathlib\<close>, \<open>str_loc\<close> for a string
  given by the user or found in the document, relative to the working directory.
\<close>

type_synonym loc = "exn + path"

definition abs_loc :: "tree \<Rightarrow> path \<Rightarrow> loc" where
  "abs_loc t raw = walk t [] raw"

definition str_loc :: "tree \<Rightarrow> path \<Rightarrow> string \<Rightarrow> loc" where
  "str_loc t cwd s =
     (if s = [] then Inl FileNotFoundError
      else walk t (if startswith s ''/'' then [] else cwd) (splitc s))"

definition loc_exists :: "tree \<Rightarrow> loc \<Rightarrow> bool" where
  "loc_exists t l = (case l of Inl e \<Rightarrow> False | Inr p \<Rightarrow> node_at t p \<noteq> None)"

definition loc_is_dir :: "tree \<Rightarrow> loc \<Rightarrow> bool" where
  "loc_is_dir t l = (case l of Inl e \<Rightarrow> False | Inr p \<Rightarrow> node_at t p = Some Dir)"

definition loc_is_file :: "tree \<Rightarrow> loc \<Rightarrow> bool" where
  "loc_is_file t l =
     (case l of
        Inl e \<Rightarrow> False
      | Inr p \<Rightarrow> (case node_at t p of Some (File b) \<Rightarrow> True | _ \<Rightarrow> False))"

definition samefile :: "tree \<Rightarrow> loc \<Rightarrow> loc \<Rightarrow> bool" where
  "samefile t l1 l2 = (loc_exists t l1 \<and> loc_exists t l2 \<and> l1 = l2)"

text \<open>\<^verbatim>\<open>open(p, 'r')\<close> followed by reading everything.\<close>

definition read_file :: "tree \<Rightarrow> loc \<Rightarrow> exn + bytes" where
  "read_file t l =
     (case l of
        Inl e \<Rightarrow> Inl e
      | Inr p \<Rightarrow>
          (case node_at t p of
             None \<Rightarrow> Inl FileNotFoundError
           | Some Dir \<Rightarrow> Inl IsADirectoryError
           | Some (File b) \<Rightarrow> Inr b))"

text \<open>\<^verbatim>\<open>open(p, 'w')\<close> followed by writing \<open>b\<close>: the file is created or replaced.\<close>

definition write_file :: "tree \<Rightarrow> loc \<Rightarrow> bytes \<Rightarrow> exn + tree" where
  "write_file t l b =
     (case l of
        Inl e \<Rightarrow> Inl e
      | Inr p \<Rightarrow>
          (case node_at t p of
             Some Dir \<Rightarrow> Inl IsADirectoryError
           | _ \<Rightarrow> Inr (AList.update p (File b) t)))"

definition os_mkdir :: "tree \<Rightarrow> loc \<Rightarrow> exn + tree" where
  "os_mkdir t l =
     (case l of
        Inl e \<Rightarrow> Inl e
      | Inr p \<Rightarrow>
          (case node_at t p of
             None \<Rightarrow> Inr (AList.update p Dir t)
           | Some n \<Rightarrow> Inl FileExistsError))"

text \<open>
  \<^verbatim>\<open>Path.mkdir(parents=True, exist_ok=True)\<close>, as \<^verbatim>\<open>pathlib\<close> does it: try
  the directory itself; when a parent is missing, make the parent in the same way
  and try once more; any other error is dropped when the path is a directory.
\<close>

function mkdir_parents :: "tree \<Rightarrow> path \<Rightarrow> exn + tree" where
  "mkdir_parents t raw =
     (case os_mkdir t (abs_loc t raw) of
        Inr t' \<Rightarrow> Inr t'
      | Inl e \<Rightarrow>
          (if e = FileNotFoundError then
             (if raw = [] then Inl e
              else (case mkdir_parents t (butlast raw) of
                      Inl e' \<Rightarrow> Inl e'
                    | Inr t' \<Rightarrow>
                        (case os_mkdir t' (abs_loc t' raw) of
                           Inr t'' \<Rightarrow> Inr t''
                         | Inl e' \<Rightarrow>
                             (if e' \<noteq> FileNotFoundError \<and> loc_is_dir t' (abs_loc t' raw)
                              then Inr t' else Inl e'))))
           else if loc_is_dir t (abs_loc t raw) then Inr t else Inl e))"
  by pat_completeness auto
termination
  by (relation "measure (\<lambda>(t, raw). length raw)") auto

declare mkdir_parents.simps [simp del]

text \<open>
  \<^verbatim>\<open>os.makedirs(name)\<close>, which \<^verbatim>\<open>zipfile\<close> calls for the parent of a member
  that does not exist yet: first the missing head, then the directory itself.
\<close>

function makedirs :: "tree \<Rightarrow> path \<Rightarrow> exn + tree" where
  "makedirs t name =
     (case (if name \<noteq> [] \<and> \<not> loc_exists t (abs_loc t (butlast name))
            then (case makedirs t (butlast name) of
                    Inl e \<Rightarrow> if e = FileExistsError then Inr t else Inl e
                  | Inr t' \<Rightarrow> Inr t')
            else Inr t) of
        Inl e \<Rightarrow> Inl e
      | Inr t' \<Rightarrow> os_mkdir t' (abs_loc t' name))"
  by pat_completeness auto
termination
  by (relation "measure (\<lambda>(t, name). length name)") auto

declare makedirs.simps [simp del]

text \<open>\<^verbatim>\<open>os.listdir\<close>: the names directly below a directory.\<close>

definition listdir :: "tree \<Rightarrow> loc \<Rightarrow> exn + string list" where
  "listdir t l =
     (case l of
        Inl e \<Rightarrow> Inl e
      | Inr p \<Rightarrow>
          (case node_at t p of
             None \<Rightarrow> Inl FileNotFoundError
           | Some (File b) \<Rightarrow> Inl NotADirectoryError
           | Some Dir \<Rightarrow>
               Inr (remdups (map last (filter (\<lambda>q. q \<noteq> [] \<and> butlast q = p) (map fst t))))))"

text \<open>
  \<^verbatim>\<open>os.rename\<close> as \<^verbatim>\<open>shutil.move\<close> uses it: the node and everything below it
  change their place; a file may take the place of a file. Where the system call
  fails, \<^verbatim>\<open>shutil.move\<close> falls back to copying, which fails in turn in each of
  these cases (\<open>ShutilError\<close>).
\<close>

definition rename_tree :: "tree \<Rightarrow> path \<Rightarrow> path \<Rightarrow> tree" where
  "rename_tree t src dst =
     map (\<lambda>(q, n). (if prefix src q then dst @ drop (length src) q else q, n)) t"

definition os_rename :: "tree \<Rightarrow> loc \<Rightarrow> loc \<Rightarrow> exn + tree" where
  "os_rename t l1 l2 =
     (case l1 of
        Inl e \<Rightarrow> Inl e
      | Inr src \<Rightarrow>
          (case l2 of
             Inl e \<Rightarrow> Inl e
           | Inr dst \<Rightarrow>
               (if node_at t src = None then Inl FileNotFoundError
                else if src = [] \<or> prefix src dst then Inl ShutilError
                else (case node_at t dst of
                        None \<Rightarrow> Inr (rename_tree t src dst)
                      | Some Dir \<Rightarrow> Inl ShutilError
                      | Some (File b) \<Rightarrow>
                          (if node_at t src = Some Dir then Inl ShutilError
                           else Inr (rename_tree (AList.delete dst t) src dst))))))"

text \<open>
  \<^verbatim>\<open>shutil.move(src, dst)\<close>: into \<open>dst\<close> when that is a directory, under the last
  component of \<open>src\<close>, and never over something that is already there.
\<close>

definition shutil_move :: "tree \<Rightarrow> path \<Rightarrow> path \<Rightarrow> exn + tree" where
  "shutil_move t src dst =
     (if loc_is_dir t (abs_loc t dst) then
        (if samefile t (abs_loc t src) (abs_loc t dst) then Inr t
         else if loc_exists t (abs_loc t (dst @ [last src])) then Inl ShutilError
         else os_rename t (abs_loc t src) (abs_loc t (dst @ [last src])))
      else os_rename t (abs_loc t src) (abs_loc t dst))"

text \<open>\<^verbatim>\<open>shutil.copyfile(src, dst)\<close>.\<close>

definition copyfile :: "tree \<Rightarrow> loc \<Rightarrow> loc \<Rightarrow> exn + tree" where
  "copyfile t src dst =
     (if samefile t src dst then Inl SameFileError
      else (case read_file t src of
              Inl e \<Rightarrow> Inl e
            | Inr b \<Rightarrow> write_file t dst b))"

section \<open>The world of a run\<close>

text \<open>
  What a run can change: the file tree, the lines still to be read from the
  console, what was printed, and the requests handed to the network libraries
  (\<^verbatim>\<open>urllib.request.urlretrieve\<close>, \<^verbatim>\<open>requests.get\<close>), in order.
  A message is a printed line: \<open>Say\<close> a text, \<open>SayNum\<close> a text followed by a number,
  \<open>Report\<close> a text followed by the text of an exception, \<open>Ask\<close> the prompt of
  \<^verbatim>\<open>input\<close>.
\<close>

datatype message =
    Say string
  | SayNum string int
  | Ask string
  | Report string exn

record world =
  tree :: tree
  stdin :: "string list"
  out :: "message list"
  net :: "string list"

text \<open>
  What a run cannot change, and what the libraries decide: the working directory;
  the answer of the server to \<^verbatim>\<open>urlretrieve\<close> (nothing, or a body that is complete
  or cut short); what \<^verbatim>\<open>zipfile\<close> finds in a file (\<open>None\<close> when it is no archive,
  else the members it can extract, in order, and whether the archive is intact
  after them); \<^verbatim>\<open>json.load\<close> and \<^verbatim>\<open>json.dump\<close> with \<^verbatim>\<open>indent=4\<close>; the answer
  to \<^verbatim>\<open>requests.get\<close> (\<open>None\<close> when it raises, else the status code, the chunks
  received and whether the stream ended well); and the anchors BeautifulSoup
  finds in the text of a document, each with its \<^verbatim>\<open>href\<close>.
\<close>

datatype fetched = Unreachable | Body bytes bool

type_synonym member = "string \<times> bytes"

record env =
  cwd :: path
  fetch :: "string \<Rightarrow> fetched"
  unzip :: "bytes \<Rightarrow> (member list \<times> bool) option"
  json_load :: "bytes \<Rightarrow> exn + json"
  json_dump :: "json \<Rightarrow> bytes"
  http_get :: "string \<Rightarrow> (int \<times> bytes list \<times> bool) option"
  html_anchors :: "bytes \<Rightarrow> exn + string option list"

text \<open>
  How a run ends: \<open>Installed\<close> after the last line of an installer, \<open>Aborted\<close> at
  one of its \<^verbatim>\<open>return\<close> statements, \<open>Crashed\<close> with an exception that no handler
  catches. A step yields \<open>None\<close> when the run goes on.
\<close>

datatype outcome = Installed | Aborted | Crashed exn

type_synonym run = "outcome option \<times> world"

fun steps :: "(world \<Rightarrow> run) list \<Rightarrow> world \<Rightarrow> run" where
  "steps [] w = (None, w)"
| "steps (f # fs) w =
     (case f w of
        (None, w') \<Rightarrow> steps fs w'
      | (Some oc, w') \<Rightarrow> (Some oc, w'))"

definition print :: "message \<Rightarrow> world \<Rightarrow> world" where
  "print m w = w\<lparr>out := out w @ [m]\<rparr>"

definition input :: "string \<Rightarrow> world \<Rightarrow> (exn + string) \<times> world" where
  "input prompt w =
     (case stdin w of
        [] \<Rightarrow> (Inl EOFError, print (Ask prompt) w)
      | l # ls \<Rightarrow> (Inr l, (print (Ask prompt) w)\<lparr>stdin := ls\<rparr>))"

text \<open>A call of \<^verbatim>\<open>Path.mkdir(parents=True, exist_ok=True)\<close> outside any handler.\<close>

definition path_mkdir :: "path \<Rightarrow> world \<Rightarrow> run" where
  "path_mkdir p w =
     (case mkdir_parents (tree w) p of
        Inl e \<Rightarrow> (Some (Crashed e), w)
      | Inr t \<Rightarrow> (None, w\<lparr>tree := t\<rparr>))"

section \<open>The registry update\<close>

text \<open>
  Lines 82-117 of the archive installer and lines 178-214 of the scrape installer
  are the same code but for the game directory and the last message, which are
  the parameters \<open>game_dir\<close> and \<open>done\<close> here.
\<close>

definition bak_path :: "path \<Rightarrow> path" where
  "bak_path p = butlast p @ [last p @ ''.bak'']"

definition load_profiles :: "env \<Rightarrow> path \<Rightarrow> world \<Rightarrow> (exn + json) \<times> world" where
  "load_profiles E profiles_path w =
     (case read_file (tree w) (abs_loc (tree w) profiles_path) of
        Inl e \<Rightarrow>
          (if e = FileNotFoundError then (Inr default_profiles_data, w) else (Inl e, w))
      | Inr b \<Rightarrow>
          (case json_load E b of
             Inr profiles_data \<Rightarrow> (Inr profiles_data, w)
           | Inl e \<Rightarrow>
               (if e = JSONDecodeError then
                  (let w1 = print (Say ''Error decoding launcher_profiles.json. Backing up the file and creating a new one.'') w
                   in case copyfile (tree w1) (abs_loc (tree w1) profiles_path)
                             (abs_loc (tree w1) (bak_path profiles_path)) of
                        Inl e' \<Rightarrow> (Inl e', w1)
                      | Inr t \<Rightarrow> (Inr default_profiles_data, w1\<lparr>tree := t\<rparr>))
                else (Inl e, w))))"

definition store_profile ::
  "env \<Rightarrow> path \<Rightarrow> string \<Rightarrow> string \<Rightarrow> message \<Rightarrow> json \<Rightarrow> world \<Rightarrow> run" where
  "store_profile E profiles_path pack_name game_dir done profiles_data w =
     (case input ''Input Minecraft version for modpack: '' w of
        (Inl e, w1) \<Rightarrow> (Some (Crashed e), w1)
      | (Inr profile_version, w1) \<Rightarrow>
          (case set_profile profiles_data pack_name
                  (profile_entry pack_name profile_version game_dir) of
             Inl e \<Rightarrow> (Some (Crashed e), w1)
           | Inr profiles_data' \<Rightarrow>
               (case write_file (tree w1) (abs_loc (tree w1) profiles_path)
                       (json_dump E profiles_data') of
                  Inl e \<Rightarrow>
                    (Some Aborted, print (Report ''Error writing to launcher_profiles.json: '' e) w1)
                | Inr t \<Rightarrow> (Some Installed, print done (w1\<lparr>tree := t\<rparr>)))))"

definition update_launcher_profiles ::
  "env \<Rightarrow> path \<Rightarrow> string \<Rightarrow> string \<Rightarrow> message \<Rightarrow> world \<Rightarrow> run" where
  "update_launcher_profiles E profiles_path pack_name game_dir done w =
     (case load_profiles E profiles_path (print (Say ''Updating launcher profile...'') w) of
        (Inl e, w1) \<Rightarrow> (Some (Crashed e), w1)
      | (Inr profiles_data, w1) \<Rightarrow>
          store_profile E profiles_path pack_name game_dir done profiles_data w1)"

section \<open>The archive installer\<close>

text \<open>Lines 25-28, and the directories of lines 53-56 and 74-75.\<close>

definition instances_dir :: "path \<Rightarrow> path" where
  "instances_dir minecraft_path = pjoin minecraft_path ''instances''"

definition profiles_path :: "path \<Rightarrow> path" where
  "profiles_path minecraft_path = pjoin minecraft_path ''launcher_profiles.json''"

definition pack_instance_dir :: "path \<Rightarrow> string \<Rightarrow> path" where
  "pack_instance_dir minecraft_path pack_name = pjoin (instances_dir minecraft_path) pack_name"

definition minecraft_subdir :: "path \<Rightarrow> string \<Rightarrow> path" where
  "minecraft_subdir minecraft_path pack_name =
     pjoin (pack_instance_dir minecraft_path pack_name) ''minecraft''"

text \<open>
  Line 107, \<^verbatim>\<open>str(pack_instance_dir / "minecraft")\<close>. The launcher directory
  is resolved and has the root \<^verbatim>\<open>/\<close>; only a pack name that starts with
  exactly two slashes brings the root \<^verbatim>\<open>//\<close> into the path.
\<close>

definition pack_game_dir :: "path \<Rightarrow> string \<Rightarrow> string" where
  "pack_game_dir minecraft_path pack_name =
     (if double_root pack_name then ''/'' else [])
     @ path_str (minecraft_subdir minecraft_path pack_name)"

text \<open>
  \<^verbatim>\<open>urllib.request.urlretrieve(url, filename)\<close>: the request, then the body
  written to the file; a body cut short raises after what came was written.
  Before anything is sent, \<^verbatim>\<open>urlopen\<close> makes a \<^verbatim>\<open>Request\<close> of the URL, which
  takes away the fragment (what follows the last \<^verbatim>\<open>#\<close>) and raises
  \<^verbatim>\<open>ValueError\<close> when the rest does not begin with a scheme: one or more
  characters other than \<^verbatim>\<open>/\<close> and \<^verbatim>\<open>:\<close>, then a colon. (It also strips
  blanks, angle brackets and the prefix \<^verbatim>\<open>URL:\<close>; a URL that has passed line 21
  starts with \<^verbatim>\<open>http\<close> and ends in \<^verbatim>\<open>.zip\<close> and has none of these.) The
  list \<open>net\<close> records every call, also one that the library gives up before it
  reaches the network.
\<close>

definition splittag :: "string \<Rightarrow> string" where
  "splittag url =
     (if CHR ''#'' \<in> set url then rev (tl (dropWhile (\<lambda>c. c \<noteq> CHR ''#'') (rev url)))
      else url)"

definition splittype :: "string \<Rightarrow> string option" where
  "splittype url =
     (let scheme = takeWhile (\<lambda>c. c \<noteq> CHR ''/'' \<and> c \<noteq> CHR '':'') url
      in if scheme \<noteq> [] \<and> startswith (drop (length scheme) url) '':'' then Some scheme
         else None)"

definition urlretrieve :: "env \<Rightarrow> string \<Rightarrow> path \<Rightarrow> world \<Rightarrow> exn option \<times> world" where
  "urlretrieve E url filename w =
     (let w1 = w\<lparr>net := net w @ [url]\<rparr>
      in if splittype (splittag url) = None then (Some ValueError, w1)
         else
           (case fetch E url of
              Unreachable \<Rightarrow> (Some URLError, w1)
            | Body b whole \<Rightarrow>
                (case write_file (tree w1) (abs_loc (tree w1) filename) b of
                   Inl e \<Rightarrow> (Some e, w1)
                 | Inr t \<Rightarrow>
                     (if whole then None else Some ContentTooShortError, w1\<lparr>tree := t\<rparr>))))"

text \<open>Lines 34-41.\<close>

definition download_pack :: "env \<Rightarrow> string \<Rightarrow> path \<Rightarrow> world \<Rightarrow> run" where
  "download_pack E pack_url pack_dir w =
     (case urlretrieve E pack_url (pjoin pack_dir ''pack.zip'')
             (print (Say (''Downloading FTB pack from '' @ pack_url @ ''...'')) w) of
        (Some e, w1) \<Rightarrow> (Some Aborted, print (Report ''Error downloading pack: '' e) w1)
      | (None, w1) \<Rightarrow> (None, w1))"

text \<open>
  \<^verbatim>\<open>ZipFile.extractall(path)\<close>, member by member. \<^verbatim>\<open>zipfile\<close> drops the empty,
  \<^verbatim>\<open>.\<close> and \<^verbatim>\<open>..\<close> components of a member's name, joins the rest to \<open>path\<close> and
  normalises the result; it makes the missing parent directories, then the
  directory (a name ending in a slash) or the file.
\<close>

definition arc_parts :: "string \<Rightarrow> string list" where
  "arc_parts name = filter (\<lambda>c. c \<noteq> [] \<and> c \<noteq> ''.'' \<and> c \<noteq> ''..'') (splitc name)"

definition extract_member :: "tree \<Rightarrow> path \<Rightarrow> member \<Rightarrow> exn + tree" where
  "extract_member t dir m =
     (let targetpath = normpath (dir @ arc_parts (fst m));
          upperdirs = butlast targetpath
      in case (if \<not> loc_exists t (abs_loc t upperdirs) then makedirs t upperdirs else Inr t) of
           Inl e \<Rightarrow> Inl e
         | Inr t1 \<Rightarrow>
             (if endswith (fst m) ''/'' then
                (if loc_is_dir t1 (abs_loc t1 targetpath) then Inr t1
                 else os_mkdir t1 (abs_loc t1 targetpath))
              else write_file t1 (abs_loc t1 targetpath) (snd m)))"

fun extract_members :: "tree \<Rightarrow> path \<Rightarrow> member list \<Rightarrow> exn option \<times> tree" where
  "extract_members t dir [] = (None, t)"
| "extract_members t dir (m # ms) =
     (case extract_member t dir m of
        Inl e \<Rightarrow> (Some e, t)
      | Inr t' \<Rightarrow> extract_members t' dir ms)"

definition extractall :: "env \<Rightarrow> tree \<Rightarrow> path \<Rightarrow> path \<Rightarrow> exn option \<times> tree" where
  "extractall E t zip_file_path dir =
     (case read_file t (abs_loc t zip_file_path) of
        Inl e \<Rightarrow> (Some e, t)
      | Inr b \<Rightarrow>
          (case unzip E b of
             None \<Rightarrow> (Some BadZipFile, t)
           | Some (ms, intact) \<Rightarrow>
               (case extract_members t dir ms of
                  (Some e, t') \<Rightarrow> (Some e, t')
                | (None, t') \<Rightarrow> (if intact then None else Some BadZipFile, t'))))"

text \<open>Lines 43-50.\<close>

definition extract_pack :: "env \<Rightarrow> path \<Rightarrow> world \<Rightarrow> run" where
  "extract_pack E pack_dir w =
     (let w1 = print (Say ''Extracting FTB pack...'') w
      in case extractall E (tree w1) (pjoin pack_dir ''pack.zip'') pack_dir of
           (Some e, t) \<Rightarrow>
             (Some Aborted, print (Report ''Error extracting pack: '' e) (w1\<lparr>tree := t\<rparr>))
         | (None, t) \<Rightarrow> (None, w1\<lparr>tree := t\<rparr>))"

text \<open>
  Lines 63-66, 68-71 and 77-80: when the source exists, a line is printed and
  each thing listed in it is moved into the target. Nothing here is inside a
  handler.
\<close>

fun move_items :: "tree \<Rightarrow> path \<Rightarrow> string list \<Rightarrow> path \<Rightarrow> exn option \<times> tree" where
  "move_items t source_dir [] target_dir = (None, t)"
| "move_items t source_dir (item # items) target_dir =
     (case shutil_move t (source_dir @ [item]) target_dir of
        Inl e \<Rightarrow> (Some e, t)
      | Inr t' \<Rightarrow> move_items t' source_dir items target_dir)"

definition move_folder :: "string \<Rightarrow> path \<Rightarrow> path \<Rightarrow> world \<Rightarrow> run" where
  "move_folder moving source_dir target_dir w =
     (if loc_exists (tree w) (abs_loc (tree w) source_dir) then
        (let w1 = print (Say moving) w
         in case listdir (tree w1) (abs_loc (tree w1) source_dir) of
              Inl e \<Rightarrow> (Some (Crashed e), w1)
            | Inr items \<Rightarrow>
                (case move_items (tree w1) source_dir items target_dir of
                   (Some e, t) \<Rightarrow> (Some (Crashed e), w1\<lparr>tree := t\<rparr>)
                 | (None, t) \<Rightarrow> (None, w1\<lparr>tree := t\<rparr>)))
      else (None, w))"

text \<open>Lines 52-80.\<close>

definition move_known_folders :: "path \<Rightarrow> world \<Rightarrow> run" where
  "move_known_folders pack_dir w =
     steps
       [path_mkdir (pjoin pack_dir ''minecraft''),
        path_mkdir (pjoin (pjoin pack_dir ''minecraft'') ''mods''),
        path_mkdir (pjoin (pjoin pack_dir ''minecraft'') ''config''),
        move_folder ''Moving mods...'' (pjoin pack_dir ''mods'')
          (pjoin (pjoin pack_dir ''minecraft'') ''mods''),
        move_folder ''Moving configs...'' (pjoin pack_dir ''config'')
          (pjoin (pjoin pack_dir ''minecraft'') ''config''),
        path_mkdir (pjoin (pjoin pack_dir ''minecraft'') ''libraries''),
        move_folder ''Moving libraries...'' (pjoin pack_dir ''libraries'')
          (pjoin (pjoin pack_dir ''minecraft'') ''libraries'')] w"

text \<open>Lines 30-50: the directories, the download and the extraction.\<close>

definition fetch_and_extract :: "env \<Rightarrow> string \<Rightarrow> path \<Rightarrow> string \<Rightarrow> world \<Rightarrow> run" where
  "fetch_and_extract E pack_url minecraft_path pack_name w =
     steps
       [path_mkdir (instances_dir minecraft_path),
        path_mkdir (pack_instance_dir minecraft_path pack_name),
        download_pack E pack_url (pack_instance_dir minecraft_path pack_name),
        extract_pack E (pack_instance_dir minecraft_path pack_name)] w"

text \<open>Lines 30-80: everything the archive installer does before the registry.\<close>

definition install_files :: "env \<Rightarrow> string \<Rightarrow> path \<Rightarrow> string \<Rightarrow> world \<Rightarrow> run" where
  "install_files E pack_url minecraft_path pack_name w =
     steps
       [fetch_and_extract E pack_url minecraft_path pack_name,
        move_known_folders (pack_instance_dir minecraft_path pack_name)] w"

definition installed_message :: "string \<Rightarrow> message" where
  "installed_message pack_name =
     Say (''FTB pack '' @ [CHR 0x27] @ pack_name @ [CHR 0x27]
          @ '' installed successfully! Launch Minecraft and select the '' @ [CHR 0x27]
          @ pack_name @ [CHR 0x27] @ '' profile.'')"

definition download_and_install_ftb_pack_from_link ::
  "env \<Rightarrow> string \<Rightarrow> path \<Rightarrow> string \<Rightarrow> world \<Rightarrow> run" where
  "download_and_install_ftb_pack_from_link E pack_url minecraft_path pack_name w =
     (if invalid_link pack_url then
        (Some Aborted,
         print (Say ''Invalid direct download link. Please provide a URL ending with .zip.'') w)
      else
        steps
          [install_files E pack_url minecraft_path pack_name,
           update_launcher_profiles E (profiles_path minecraft_path) pack_name
             (pack_game_dir minecraft_path pack_name)
             (installed_message pack_name)] w)"

section \<open>The scrape installer\<close>

text \<open>Lines 130-135: the document is opened and parsed inside one handler.\<close>

definition load_anchors :: "env \<Rightarrow> string \<Rightarrow> world \<Rightarrow> exn + string option list" where
  "load_anchors E html_file_path w =
     (case read_file (tree w) (str_loc (tree w) (cwd E) html_file_path) of
        Inl e \<Rightarrow> Inl e
      | Inr b \<Rightarrow> html_anchors E b)"

text \<open>
  \<^verbatim>\<open>shutil.copy2(src, dst)\<close>: into \<open>dst\<close> under the base name of \<open>src\<close> when \<open>dst\<close>
  is a directory.
\<close>

definition copy2 :: "tree \<Rightarrow> path \<Rightarrow> string \<Rightarrow> path \<Rightarrow> exn + tree" where
  "copy2 t wd src dst =
     copyfile t (str_loc t wd src)
       (abs_loc t (if loc_is_dir t (abs_loc t dst) then dst @ [basename src] else dst))"

text \<open>Lines 150-176: what is done with one collected link.\<close>

definition process_link :: "env \<Rightarrow> path \<Rightarrow> string \<Rightarrow> world \<Rightarrow> world" where
  "process_link E mods_dir link w =
     (if loc_is_file (tree w) (str_loc (tree w) (cwd E) link) then
        (case copy2 (tree w) (cwd E) link mods_dir of
           Inr t \<Rightarrow>
             print (Say (''Mod copied from '' @ link @ '' to '' @ path_str mods_dir))
               (w\<lparr>tree := t\<rparr>)
         | Inl e \<Rightarrow> print (Report (''Error copying mod from '' @ link @ '': '') e) w)
      else if startswith link ''http'' then
        (let w1 = print (Say (''Downloading mod from '' @ link @ ''...'')) w;
             w2 = w1\<lparr>net := net w1 @ [link]\<rparr>
         in case http_get E link of
              None \<Rightarrow>
                print (Report (''Error downloading mod from '' @ link @ '': '') RequestException) w2
            | Some (status_code, chunks, whole) \<Rightarrow>
                (if status_code = 200 then
                   (case write_file (tree w2)
                           (abs_loc (tree w2) (pjoin mods_dir (path_name link)))
                           (concat chunks) of
                      Inl e \<Rightarrow>
                        print (Report (''Error downloading mod from '' @ link @ '': '') e) w2
                    | Inr t \<Rightarrow>
                        (if whole then
                           print (Say (''Mod '' @ path_name link @ '' downloaded successfully!''))
                             (w2\<lparr>tree := t\<rparr>)
                         else
                           print (Report (''Error downloading mod from '' @ link @ '': '')
                                    RequestException) (w2\<lparr>tree := t\<rparr>)))
                 else
                   print (SayNum (''Failed to download mod from '' @ link @ ''. Status code: '')
                            status_code) w2))
      else print (Say (''Unsupported link type: '' @ link)) w)"

fun process_links :: "env \<Rightarrow> path \<Rightarrow> string list \<Rightarrow> world \<Rightarrow> world" where
  "process_links E mods_dir [] w = w"
| "process_links E mods_dir (link # links) w =
     process_links E mods_dir links (process_link E mods_dir link w)"

definition mods_installed_message :: "string \<Rightarrow> message" where
  "mods_installed_message pack_name =
     Say (''Mods installed successfully! Launch Minecraft and select the '' @ [CHR 0x27]
          @ pack_name @ [CHR 0x27] @ '' profile.'')"

text \<open>Lines 137-214, for the anchors of the parsed document.\<close>

definition install_from_anchors ::
  "env \<Rightarrow> string option list \<Rightarrow> path \<Rightarrow> string \<Rightarrow> world \<Rightarrow> run" where
  "install_from_anchors E anchors minecraft_path pack_name w =
     steps
       [path_mkdir (pjoin minecraft_path ''mods''),
        (\<lambda>w'. (None, process_links E (pjoin minecraft_path ''mods'')
                       (find_mod_links anchors) w')),
        update_launcher_profiles E (profiles_path minecraft_path) pack_name
          (path_str minecraft_path) (mods_installed_message pack_name)] w"

definition download_and_install_ftb_pack_from_html ::
  "env \<Rightarrow> string \<Rightarrow> path \<Rightarrow> string \<Rightarrow> world \<Rightarrow> run" where
  "download_and_install_ftb_pack_from_html E html_file_path minecraft_path pack_name w =
     (case load_anchors E html_file_path w of
        Inl e \<Rightarrow> (Some Aborted, print (Report ''Error parsing HTML file: '' e) w)
      | Inr anchors \<Rightarrow> install_from_anchors E anchors minecraft_path pack_name w)"

section \<open>Inputs of the usual shape, and the words of the specification\<close>

text \<open>
  A resolved path has no empty, \<^verbatim>\<open>.\<close> or \<^verbatim>\<open>..\<close> component. A plain name is one
  path component: the pack name a user is expected to type.
\<close>

definition resolved :: "path \<Rightarrow> bool" where
  "resolved p = (\<forall>c \<in> set p. c \<noteq> [] \<and> c \<noteq> ''.'' \<and> c \<noteq> ''..'')"

definition plain_name :: "string \<Rightarrow> bool" where
  "plain_name n = (n \<noteq> [] \<and> n \<noteq> ''.'' \<and> n \<noteq> ''..'' \<and> CHR ''/'' \<notin> set n)"

text \<open>A path is reachable when everything above it is a directory.\<close>

definition reachable :: "tree \<Rightarrow> path \<Rightarrow> bool" where
  "reachable t p = (\<forall>q. strict_prefix q p \<longrightarrow> node_at t q = Some Dir)"

text \<open>
  A tree grows into another when nothing is removed on the way and every
  directory stays a directory.
\<close>

definition grows :: "tree \<Rightarrow> tree \<Rightarrow> bool" where
  "grows t t' =
     (\<forall>q. (node_at t q \<noteq> None \<longrightarrow> node_at t' q \<noteq> None)
        \<and> (node_at t q = Some Dir \<longrightarrow> node_at t' q = Some Dir))"

text \<open>
  The specification speaks of a URL whose scheme is HTTP(S). The scheme of a URL
  is what stands before its first colon.
\<close>

definition spec_http_scheme :: "string \<Rightarrow> bool" where
  "spec_http_scheme url =
     (CHR '':'' \<in> set url \<and>
      (takeWhile (\<lambda>c. c \<noteq> CHR '':'') url = ''http'' \<or>
       takeWhile (\<lambda>c. c \<noteq> CHR '':'') url = ''https''))"

section \<open>Example data\<close>

text \<open>
  A server with one archive, which holds one mod; a launcher directory \<^verbatim>\<open>/r\<close>
  with an empty registry; a user who will type \<^verbatim>\<open>1.20.1\<close>.
\<close>

definition example_env :: env where
  \<open>example_env =
     \<lparr>cwd = [''home''],
      fetch = (\<lambda>u. if u = ''http://host/pack.zip'' then Body ''PK'' True else Unreachable),
      unzip = (\<lambda>b. if b = ''PK'' then Some ([(''mods/a.jar'', ''A'')], True) else None),
      json_load = (\<lambda>b. if b = ''{"profiles": {}, "settings": {}, "version": 2}''
                         then Inr default_profiles_data else Inl JSONDecodeError),
      json_dump = (\<lambda>d. if d = default_profiles_data
                         then ''{"profiles": {}, "settings": {}, "version": 2}''
                         else ''{"profiles": {"pk": {}}, "settings": {}, "version": 2}''),
      http_get = (\<lambda>u. None),
      html_anchors = (\<lambda>b. Inr [])\<rparr>\<close>

definition example_world :: world where
  \<open>example_world =
     \<lparr>tree = [([''r''], Dir),
              ([''r'', ''launcher_profiles.json''],
               File ''{"profiles": {}, "settings": {}, "version": 2}'')],
      stdin = [''1.20.1''],
      out = [],
      net = []\<rparr>\<close>

text \<open>
  For the scrape installer: a document with four hyperlinks, of which the first
  names a file in the working directory although it starts with \<^verbatim>\<open>http\<close>, and
  a server that answers for the second.
\<close>

definition scrape_env :: env where
  "scrape_env =
     example_env
       \<lparr>http_get := (\<lambda>u. if u = ''http://host/b.zip'' then Some (200, [''B1'', ''B2''], True)
                          else None),
        html_anchors := (\<lambda>b. Inr [Some ''http.jar'', Some ''http://host/b.zip'',
                                    Some ''notes.txt'', Some ''ftp://host/c.jar''])\<rparr>"

definition scrape_world :: world where
  "scrape_world =
     \<lparr>tree = [([''home''], Dir), ([''home'', ''http.jar''], File ''JAR''),
              ([''home'', ''mods.html''], File ''html''), ([''r''], Dir), ([''r'', ''mods''], Dir)],
      stdin = [''1.20.1''],
      out = [],
      net = []\<rparr>"


text \<open>A launcher directory whose registry is not JSON.\<close>

definition corrupt_world :: world where
  "corrupt_world =
     \<lparr>tree = [([''r''], Dir), ([''r'', ''launcher_profiles.json''], File ''not json'')],
      stdin = [''1.20.1''],
      out = [],
      net = []\<rparr>"


section \<open>Properties\<close>

lemma collect_links_filter:
  "collect_links acc anchors = acc @ map the (filter keep_href anchors)"
  by (induction anchors arbitrary: acc) simp_all

lemma find_mod_links_filter:
  "find_mod_links anchors = map the (filter keep_href anchors)"
  by (simp add: find_mod_links_def collect_links_filter)

lemma keep_href_simps:
  "keep_href None = False"
  "keep_href (Some h) = (endswith h ''.jar'' \<or> endswith h ''.zip'')"
  by (auto simp: keep_href_def endswith_def)

lemma mem_find_mod_links:
  "x \<in> set (find_mod_links anchors) \<longleftrightarrow>
     Some x \<in> set anchors \<and> (endswith x ''.jar'' \<or> endswith x ''.zip'')"
proof (induction anchors)
  case Nil
  show ?case by (simp add: find_mod_links_filter)
next
  case (Cons a anchors)
  then show ?case
    by (cases a) (auto simp: find_mod_links_filter keep_href_simps)
qed

lemma find_mod_links_comprehension:
  "find_mod_links anchors = [h. Some h \<leftarrow> anchors, endswith h ''.jar'' \<or> endswith h ''.zip'']"
proof (induction anchors)
  case Nil
  show ?case by (simp add: find_mod_links_filter)
next
  case (Cons a anchors)
  then show ?case
    by (cases a) (simp_all add: find_mod_links_filter keep_href_simps)
qed

lemma find_mod_links_skip:
  "\<not> endswith h ''.jar'' \<Longrightarrow> \<not> endswith h ''.zip'' \<Longrightarrow>
   find_mod_links (as1 @ Some h # as2) = find_mod_links (as1 @ as2)"
  by (simp add: find_mod_links_filter keep_href_simps)

lemma upper_case_suffix:
  "\<not> endswith (s @ ''.ZIP'') ''.zip''" "\<not> endswith (s @ ''.ZIP'') ''.jar''"
  "\<not> endswith (s @ ''.JAR'') ''.zip''" "\<not> endswith (s @ ''.JAR'') ''.jar''"
  by (simp_all add: endswith_def suffix_to_prefix)

subsection \<open>Link selection\<close>

text \<open>
  C6. The scrape installer collects exactly the \<^verbatim>\<open>href\<close> targets that end in
  \<^verbatim>\<open>.jar\<close> or \<^verbatim>\<open>.zip\<close>, in document order. A hyperlink with any other suffix is
  not collected, and the whole run is the same as if the hyperlink were not in
  the document: nothing is copied, downloaded or printed for it.
\<close>

theorem scrape_collects_jar_and_zip:
  "find_mod_links anchors =
     [h. Some h \<leftarrow> anchors, endswith h ''.jar'' \<or> endswith h ''.zip'']
   \<and> (\<not> endswith h ''.jar'' \<and> \<not> endswith h ''.zip'' \<longrightarrow>
        h \<notin> set (find_mod_links anchors)
        \<and> install_from_anchors E (as1 @ Some h # as2) minecraft_path pack_name w =
          install_from_anchors E (as1 @ as2) minecraft_path pack_name w)"
  by (simp add: find_mod_links_comprehension [symmetric] mem_find_mod_links
        install_from_anchors_def find_mod_links_skip)

theorem scrape_collects_jar_and_zip_witness:
  "\<not> endswith ''notes.txt'' ''.jar'' \<and> \<not> endswith ''notes.txt'' ''.zip''
   \<and> find_mod_links [Some ''a.jar'', Some ''notes.txt'', None, Some ''http://h/b.zip''] =
       [''a.jar'', ''http://h/b.zip'']
   \<and> ''notes.txt'' \<notin> set (find_mod_links
          [Some ''a.jar'', Some ''notes.txt'', None, Some ''http://h/b.zip''])
   \<and> install_from_anchors example_env ([Some ''a.jar''] @ Some ''notes.txt'' # [Some ''b.zip''])
         [''r''] ''pk'' example_world =
       install_from_anchors example_env ([Some ''a.jar''] @ [Some ''b.zip''])
         [''r''] ''pk'' example_world"
  using scrape_collects_jar_and_zip
    [where anchors = "[Some ''a.jar'', Some ''notes.txt'', None, Some ''http://h/b.zip'']"
       and h = "''notes.txt''" and E = example_env and ?as1.0 = "[Some ''a.jar'']"
       and ?as2.0 = "[Some ''b.zip'']" and minecraft_path = "[''r'']"
       and pack_name = "''pk''" and w = example_world]
  by (simp add: endswith_def suffix_to_prefix)

text \<open>
  C9. Extensions are compared case-sensitively. A URL that ends in \<^verbatim>\<open>.ZIP\<close> is
  rejected by the archive installer, which prints its message and returns; a
  hyperlink target that ends in \<^verbatim>\<open>.JAR\<close> or \<^verbatim>\<open>.ZIP\<close> is never collected by
  the scrape installer.
\<close>

theorem extensions_case_sensitive:
  "invalid_link (s @ ''.ZIP'')
   \<and> download_and_install_ftb_pack_from_link E (s @ ''.ZIP'') minecraft_path pack_name w =
       (Some Aborted,
        print (Say ''Invalid direct download link. Please provide a URL ending with .zip.'') w)
   \<and> s @ ''.JAR'' \<notin> set (find_mod_links anchors)
   \<and> s @ ''.ZIP'' \<notin> set (find_mod_links anchors)"
  by (simp add: invalid_link_def download_and_install_ftb_pack_from_link_def
        upper_case_suffix mem_find_mod_links)

theorem extensions_case_sensitive_witness:
  "invalid_link (''http://host/PACK'' @ ''.ZIP'')
   \<and> download_and_install_ftb_pack_from_link example_env (''http://host/PACK'' @ ''.ZIP'')
         [''r''] ''pk'' example_world =
       (Some Aborted,
        print (Say ''Invalid direct download link. Please provide a URL ending with .zip.'')
          example_world)
   \<and> ''http://host/PACK'' @ ''.JAR'' \<notin> set (find_mod_links [Some ''http://host/PACK.JAR''])
   \<and> ''http://host/PACK'' @ ''.ZIP'' \<notin> set (find_mod_links [Some ''http://host/PACK.ZIP''])"
  using extensions_case_sensitive
    [where s = "''http://host/PACK''" and E = example_env and minecraft_path = "[''r'']"
       and pack_name = "''pk''" and w = example_world]
    extensions_case_sensitive
    [where s = "''http://host/PACK''" and anchors = "[Some ''http://host/PACK.JAR'']"]
    extensions_case_sensitive
    [where s = "''http://host/PACK''" and anchors = "[Some ''http://host/PACK.ZIP'']"]
  by blast

subsection \<open>The profile mapping\<close>

lemma update_keys_present:
  "k \<in> fst ` set al \<Longrightarrow> map fst (AList.update k v al) = map fst al"
  by (induction al) auto

lemma update_nth_other:
  "i < length al \<Longrightarrow> fst (al ! i) \<noteq> k \<Longrightarrow> AList.update k v al ! i = al ! i"
proof (induction al arbitrary: i)
  case Nil
  then show ?case by simp
next
  case (Cons a al)
  then show ?case by (cases i) (auto split: prod.splits)
qed

lemma getitem_obj:
  "getitem d k = Inr v \<Longrightarrow> \<exists>kvs. d = JObj kvs \<and> map_of kvs k = Some v"
  by (cases d) (auto split: option.splits)

lemma set_profile_obj:
  assumes "getitem d ''profiles'' = Inr (JObj ps)"
  shows "\<exists>kvs. d = JObj kvs \<and>
     set_profile d n e = Inr (JObj (AList.update ''profiles'' (JObj (AList.update n e ps)) kvs))"
  using getitem_obj [OF assms] assms by (auto simp: set_profile_def)

lemma profiles_of_set_profile:
  assumes "getitem d ''profiles'' = Inr (JObj ps)"
  shows "\<exists>d'. set_profile d n e = Inr d'
     \<and> getitem d' ''profiles'' = Inr (JObj (AList.update n e ps))
     \<and> (\<forall>k. k \<noteq> ''profiles'' \<longrightarrow> getitem d' k = getitem d k)"
  using set_profile_obj [OF assms, of n e]
  by (auto simp: update_conv' simp del: fun_upd_apply) (simp_all)

text \<open>
  C4. In a document that has a profile mapping, storing an entry under a name
  that is already a key replaces the entry where it stands: the mapping keeps its
  length and the order of its names, and every entry under another name stays
  as it is. Whatever the name, names that were unique stay unique.
\<close>

theorem reinstall_overwrites_in_place:
  assumes "getitem profiles_data ''profiles'' = Inr (JObj ps)"
  shows "\<exists>d'. set_profile profiles_data pack_name entry = Inr d'
      \<and> profiles_of d' = AList.update pack_name entry ps
      \<and> map_of (profiles_of d') pack_name = Some entry
      \<and> (pack_name \<in> fst ` set ps \<longrightarrow>
            length (profiles_of d') = length ps
          \<and> map fst (profiles_of d') = map fst ps
          \<and> (\<forall>i < length ps. fst (ps ! i) \<noteq> pack_name \<longrightarrow> profiles_of d' ! i = ps ! i))
      \<and> (distinct (map fst ps) \<longrightarrow> distinct (map fst (profiles_of d')))"
proof -
  from profiles_of_set_profile [OF assms, of pack_name entry]
  obtain d' where d': "set_profile profiles_data pack_name entry = Inr d'"
    and g: "getitem d' ''profiles'' = Inr (JObj (AList.update pack_name entry ps))"
    by blast
  have p: "profiles_of d' = AList.update pack_name entry ps"
    by (simp add: profiles_of_def g)
  have l: "pack_name \<in> fst ` set ps \<Longrightarrow> length (AList.update pack_name entry ps) = length ps"
    using update_keys_present [of pack_name ps entry] by (metis length_map)
  show ?thesis
    using d' p l
    by (auto simp: update_conv' update_keys_present update_nth_other distinct_update
             simp del: fun_upd_apply) simp
qed

theorem reinstall_overwrites_in_place_witness:
  "getitem (JObj [(''profiles'', JObj [(''pk'', JNull), (''other'', JStr ''x'')]),
                  (''settings'', JObj []), (''version'', JNum 2)]) ''profiles'' =
     Inr (JObj [(''pk'', JNull), (''other'', JStr ''x'')])
   \<and> ''pk'' \<in> fst ` set [(''pk'', JNull), (''other'', JStr ''x'')]
   \<and> distinct (map fst [(''pk'', JNull), (''other'', JStr ''x'')])
   \<and> (\<exists>d'. set_profile (JObj [(''profiles'', JObj [(''pk'', JNull), (''other'', JStr ''x'')]),
                  (''settings'', JObj []), (''version'', JNum 2)]) ''pk'' (JStr ''new'') = Inr d'
        \<and> profiles_of d' = [(''pk'', JStr ''new''), (''other'', JStr ''x'')]
        \<and> length (profiles_of d') = 2
        \<and> distinct (map fst (profiles_of d')))"
proof -
  have h: "getitem (JObj [(''profiles'', JObj [(''pk'', JNull), (''other'', JStr ''x'')]),
                  (''settings'', JObj []), (''version'', JNum 2)]) ''profiles'' =
     Inr (JObj [(''pk'', JNull), (''other'', JStr ''x'')])"
    by simp
  from reinstall_overwrites_in_place [OF h, of "''pk''" "JStr ''new''"]
  show ?thesis by auto
qed

subsection \<open>Paths and the file tree\<close>

lemma resolved_simps [simp]:
  "resolved []"
  "resolved (c # cs) = (c \<noteq> [] \<and> c \<noteq> ''.'' \<and> c \<noteq> ''..'' \<and> resolved cs)"
  "resolved (xs @ ys) = (resolved xs \<and> resolved ys)"
  by (auto simp: resolved_def)

lemma walk_resolved:
  "resolved cs \<Longrightarrow> walk t d cs = Inr p \<Longrightarrow> p = d @ cs"
proof (induction cs arbitrary: d)
  case Nil
  then show ?case by simp
next
  case (Cons c cs)
  then have "walk t (d @ [c]) cs = Inr p"
    by (auto split: option.splits node.splits)
  with Cons.IH [of "d @ [c]"] Cons.prems(1) show ?case by simp
qed

lemma walk_resolved_dirs:
  "resolved cs \<Longrightarrow> walk t d cs = Inr p \<Longrightarrow> i < length cs \<Longrightarrow>
   node_at t (d @ take i cs) = Some Dir"
proof (induction cs arbitrary: d i)
  case Nil
  then show ?case by simp
next
  case (Cons c cs)
  show ?case
  proof (cases i)
    case 0
    with Cons.prems show ?thesis by (auto split: option.splits node.splits)
  next
    case (Suc j)
    with Cons.prems Cons.IH [of "d @ [c]" j] show ?thesis
      by (auto split: option.splits node.splits)
  qed
qed

lemma walk_resolved_ok:
  "resolved cs \<Longrightarrow> (\<forall>i < length cs. node_at t (d @ take i cs) = Some Dir) \<Longrightarrow>
   walk t d cs = Inr (d @ cs)"
proof (induction cs arbitrary: d)
  case Nil
  then show ?case by simp
next
  case (Cons c cs)
  have 0: "node_at t d = Some Dir" using Cons.prems(2) by force
  have "\<forall>i < length cs. node_at t ((d @ [c]) @ take i cs) = Some Dir"
  proof (intro allI impI)
    fix i assume "i < length cs"
    then show "node_at t ((d @ [c]) @ take i cs) = Some Dir"
      using Cons.prems(2) [rule_format, of "Suc i"] by simp
  qed
  with Cons.IH [of "d @ [c]"] Cons.prems(1) 0 show ?case by simp
qed

lemma strict_prefix_take:
  "strict_prefix q p \<longleftrightarrow> (\<exists>i < length p. q = take i p)"
  by (metis (no_types, lifting) append_eq_conv_conj length_take min.absorb4 nat_less_le
        prefix_def prefix_length_le strict_prefix_def take_all take_is_prefix)

lemma abs_loc_resolved:
  "resolved p \<Longrightarrow> abs_loc t p = (if reachable t p then Inr p else abs_loc t p)"
  using walk_resolved_ok [of p t "[]"]
  by (auto simp: abs_loc_def reachable_def strict_prefix_take)

lemma abs_loc_reachable:
  "resolved p \<Longrightarrow> reachable t p \<Longrightarrow> abs_loc t p = Inr p"
  using abs_loc_resolved by metis

lemma abs_loc_Inr:
  "resolved p \<Longrightarrow> abs_loc t p = Inr q \<Longrightarrow> q = p \<and> reachable t p"
  using walk_resolved [of p t "[]" q] walk_resolved_dirs [of p t "[]" q]
  by (auto simp: abs_loc_def reachable_def strict_prefix_take)


lemma resolved_butlast: "resolved p \<Longrightarrow> resolved (butlast p)"
  by (auto simp: resolved_def dest: in_set_butlastD)

lemma node_at_update:
  "p \<noteq> [] \<Longrightarrow> node_at (AList.update p n t) q = (if q = p then Some n else node_at t q)"
  by (simp add: node_at_def update_conv')

lemma reachable_update:
  "reachable t p \<Longrightarrow> p \<noteq> [] \<Longrightarrow> reachable (AList.update p n t) p"
  by (auto simp: reachable_def node_at_update)

lemma reachable_butlast:
  "reachable t (butlast p) \<Longrightarrow> node_at t (butlast p) = Some Dir \<Longrightarrow> reachable t p"
  unfolding reachable_def
  by (metis append_butlast_last_id butlast.simps(1) prefix_order.less_le prefix_snoc
        strict_prefix_def)

lemma write_file_resolved:
  assumes "resolved p" "write_file t (abs_loc t p) b = Inr t'"
  shows "t' = AList.update p (File b) t \<and> reachable t p \<and> node_at t p \<noteq> Some Dir \<and> p \<noteq> []"
proof -
  from assms(2) obtain q where q: "abs_loc t p = Inr q"
    by (auto simp: write_file_def split: sum.splits)
  with abs_loc_Inr [OF assms(1) q] assms(2) show ?thesis
    by (auto simp: write_file_def node_at_def split: option.splits node.splits)
qed

lemma os_mkdir_resolved:
  assumes "resolved p" "os_mkdir t (abs_loc t p) = Inr t'"
  shows "t' = AList.update p Dir t \<and> reachable t p \<and> node_at t p = None \<and> p \<noteq> []"
proof -
  from assms(2) obtain q where q: "abs_loc t p = Inr q"
    by (auto simp: os_mkdir_def split: sum.splits)
  with abs_loc_Inr [OF assms(1) q] assms(2) show ?thesis
    by (auto simp: os_mkdir_def node_at_def split: option.splits)
qed

lemma os_mkdir_effect:
  assumes "resolved p" "os_mkdir t (abs_loc t p) = Inr t'"
  shows "node_at t' p = Some Dir \<and> reachable t' p
     \<and> (node_at t' q = node_at t q \<or> (node_at t q = None \<and> node_at t' q = Some Dir \<and> prefix q p))"
  using os_mkdir_resolved [OF assms]
  by (auto simp: node_at_update reachable_update)

lemma loc_is_dir_resolved:
  "resolved p \<Longrightarrow> loc_is_dir t (abs_loc t p) \<Longrightarrow> node_at t p = Some Dir \<and> reachable t p"
  using abs_loc_Inr [of p t] by (auto simp: loc_is_dir_def split: sum.splits)

lemma mkdir_parents_effect:
  "mkdir_parents t p = Inr t' \<Longrightarrow> resolved p \<Longrightarrow>
   node_at t' p = Some Dir \<and> reachable t' p
   \<and> (\<forall>q. node_at t' q = node_at t q \<or> (node_at t q = None \<and> node_at t' q = Some Dir \<and> prefix q p))"
proof (induction t p arbitrary: t' rule: mkdir_parents.induct)
  case (1 t raw)
  note res = \<open>resolved raw\<close>
  show ?case
  proof (cases "os_mkdir t (abs_loc t raw)")
    case (Inr t1)
    with "1.prems"(1) have "t' = t1" by (simp add: mkdir_parents.simps [of t raw])
    with os_mkdir_effect [OF res] Inr show ?thesis by blast
  next
    case (Inl e)
    show ?thesis
    proof (cases "e = FileNotFoundError")
      case False
      with Inl "1.prems"(1) have d: "loc_is_dir t (abs_loc t raw)" and "t' = t"
        by (auto simp: mkdir_parents.simps [of t raw] split: if_splits)
      with loc_is_dir_resolved [OF res d] show ?thesis by simp
    next
      case True
      with Inl "1.prems"(1) have ne: "raw \<noteq> []"
        by (auto simp: mkdir_parents.simps [of t raw] split: if_splits)
      from True Inl ne "1.prems"(1) obtain t1 where
        t1: "mkdir_parents t (butlast raw) = Inr t1"
        by (auto simp: mkdir_parents.simps [of t raw] split: sum.splits)
      from "1.IH" [OF Inl True ne t1 resolved_butlast [OF res]]
      have ih: "node_at t1 (butlast raw) = Some Dir" "reachable t1 (butlast raw)"
        "\<And>q. node_at t1 q = node_at t q \<or>
           (node_at t q = None \<and> node_at t1 q = Some Dir \<and> prefix q (butlast raw))"
        by blast+
      have pb: "\<And>q. prefix q (butlast raw) \<Longrightarrow> prefix q raw"
        by (metis ne append_butlast_last_id prefix_prefix)
      show ?thesis
      proof (cases "os_mkdir t1 (abs_loc t1 raw)")
        case (Inr t2)
        with True Inl ne t1 "1.prems"(1) have "t' = t2"
          by (simp add: mkdir_parents.simps [of t raw])
        with os_mkdir_effect [OF res Inr] ih(3) pb show ?thesis
          by (metis option.distinct(1))
      next
        case (Inl e')
        with True \<open>os_mkdir t (abs_loc t raw) = Inl e\<close> ne t1 "1.prems"(1)
        have d: "loc_is_dir t1 (abs_loc t1 raw)" and "t' = t1"
          by (auto simp: mkdir_parents.simps [of t raw] split: if_splits)
        with loc_is_dir_resolved [OF res d] ih(3) pb show ?thesis by blast
      qed
    qed
  qed
qed

subsection \<open>Single steps of the installers\<close>

lemma splitc_plain: "CHR ''/'' \<notin> set s \<Longrightarrow> splitc s = [s]"
  by (induction s) auto

lemma pjoin_plain: "plain_name n \<Longrightarrow> pjoin p n = p @ [n]"
  by (cases n) (auto simp: plain_name_def pjoin_def py_parts_def startswith_def splitc_plain)

lemma plain_literals:
  "plain_name ''instances''" "plain_name ''launcher_profiles.json''" "plain_name ''minecraft''"
  "plain_name ''mods''" "plain_name ''config''" "plain_name ''libraries''" "plain_name ''pack.zip''"
  by (simp_all add: plain_name_def)

lemmas pjoin_literals = plain_literals [THEN pjoin_plain]

lemma dir_simps:
  "instances_dir R = R @ [''instances'']"
  "profiles_path R = R @ [''launcher_profiles.json'']"
  "plain_name N \<Longrightarrow> pack_instance_dir R N = R @ [''instances'', N]"
  "plain_name N \<Longrightarrow> minecraft_subdir R N = R @ [''instances'', N, ''minecraft'']"
  by (simp_all add: instances_dir_def profiles_path_def pack_instance_dir_def minecraft_subdir_def
        pjoin_literals pjoin_plain)

lemma mkdir_parents_leaf:
  "abs_loc t p = Inr p \<Longrightarrow> node_at t p = None \<Longrightarrow> mkdir_parents t p = Inr (AList.update p Dir t)"
  by (subst mkdir_parents.simps) (simp add: os_mkdir_def)

lemma mkdir_parents_dir:
  "loc_is_dir t (abs_loc t p) \<Longrightarrow> mkdir_parents t p = Inr t"
  by (subst mkdir_parents.simps)
     (auto simp: os_mkdir_def loc_is_dir_def split: sum.splits option.splits)

lemma invalid_link_aborts:
  "invalid_link url \<Longrightarrow>
   download_and_install_ftb_pack_from_link E url R N w =
     (Some Aborted, w\<lparr>out := out w @ [Say ''Invalid direct download link. Please provide a URL ending with .zip.'']\<rparr>)"
  by (simp add: download_and_install_ftb_pack_from_link_def print_def)

lemma ex_dirs:
  "steps [path_mkdir (instances_dir [''r'']), path_mkdir (pack_instance_dir [''r''] ''pk'')] example_world =
   (None, example_world\<lparr>tree := tree example_world @ [([''r'', ''instances''], Dir), ([''r'', ''instances'', ''pk''], Dir)]\<rparr>)"
  by (simp add: dir_simps plain_name_def path_mkdir_def mkdir_parents_leaf abs_loc_def node_at_def example_world_def)

lemma steps_append:
  "steps (fs @ gs) w = (case steps fs w of (None, w') \<Rightarrow> steps gs w' | (Some oc, w') \<Rightarrow> (Some oc, w'))"
  by (induction fs arbitrary: w) (auto split: prod.splits option.splits)

lemma ex_http_zip_fetch:
  "fetch_and_extract example_env ''http.zip'' [''r''] ''pk'' example_world =
   (Some Aborted,
    example_world\<lparr>tree := tree example_world @ [([''r'', ''instances''], Dir), ([''r'', ''instances'', ''pk''], Dir)],
      out := [Say ''Downloading FTB pack from http.zip...'', Report ''Error downloading pack: '' ValueError],
      net := [''http.zip'']\<rparr>)"
proof -
  have "fetch_and_extract example_env ''http.zip'' [''r''] ''pk'' example_world =
     steps ([path_mkdir (instances_dir [''r'']), path_mkdir (pack_instance_dir [''r''] ''pk'')]
        @ [download_pack example_env ''http.zip'' (pack_instance_dir [''r''] ''pk''),
           extract_pack example_env (pack_instance_dir [''r''] ''pk'')]) example_world"
    by (simp add: fetch_and_extract_def)
  also have "\<dots> = (Some Aborted,
    example_world\<lparr>tree := tree example_world @ [([''r'', ''instances''], Dir), ([''r'', ''instances'', ''pk''], Dir)],
      out := [Say ''Downloading FTB pack from http.zip...'', Report ''Error downloading pack: '' ValueError],
      net := [''http.zip'']\<rparr>)"
    unfolding steps_append ex_dirs
    by (simp add: download_pack_def urlretrieve_def splittype_def splittag_def startswith_def
          print_def example_env_def example_world_def)
  finally show ?thesis .
qed

text \<open>
  The claim C2 as it is written fails: \<^verbatim>\<open>http.zip\<close> ends in \<^verbatim>\<open>.zip\<close> and has no
  scheme at all, yet it passes the test of line 21, so both directories are made
  and the download is tried before the run gives up.
\<close>

theorem http_prefix_counterexample:
  "\<not> spec_http_scheme ''http.zip''
   \<and> download_and_install_ftb_pack_from_link example_env ''http.zip'' [''r''] ''pk'' example_world =
     (Some Aborted,
      example_world\<lparr>tree := tree example_world @ [([''r'', ''instances''], Dir), ([''r'', ''instances'', ''pk''], Dir)],
        out := [Say ''Downloading FTB pack from http.zip...'', Report ''Error downloading pack: '' ValueError],
        net := [''http.zip'']\<rparr>)
   \<and> tree (snd (download_and_install_ftb_pack_from_link example_env ''http.zip'' [''r''] ''pk'' example_world))
       \<noteq> tree example_world
   \<and> net (snd (download_and_install_ftb_pack_from_link example_env ''http.zip'' [''r''] ''pk'' example_world))
       \<noteq> net example_world"
proof -
  have "\<not> invalid_link ''http.zip''"
    by (simp add: invalid_link_def endswith_def startswith_def suffix_to_prefix)
  then have run: "download_and_install_ftb_pack_from_link example_env ''http.zip'' [''r''] ''pk'' example_world =
     (Some Aborted,
      example_world\<lparr>tree := tree example_world @ [([''r'', ''instances''], Dir), ([''r'', ''instances'', ''pk''], Dir)],
        out := [Say ''Downloading FTB pack from http.zip...'', Report ''Error downloading pack: '' ValueError],
        net := [''http.zip'']\<rparr>)"
    by (simp add: download_and_install_ftb_pack_from_link_def install_files_def ex_http_zip_fetch)
  show ?thesis
    unfolding run by (simp add: spec_http_scheme_def example_world_def)
qed


text \<open>
  C2, as amended. When the URL does not end in \<^verbatim>\<open>.zip\<close> or does not start with the
  four characters \<^verbatim>\<open>http\<close>, the archive installer prints its message and returns;
  the file tree, the requests and the console input are what they were.
\<close>

theorem rejected_link_no_side_effects:
  assumes "\<not> endswith pack_url ''.zip'' \<or> \<not> startswith pack_url ''http''"
  shows "download_and_install_ftb_pack_from_link E pack_url minecraft_path pack_name w =
           (Some Aborted,
            w\<lparr>out := out w @
               [Say ''Invalid direct download link. Please provide a URL ending with .zip.'']\<rparr>)
       \<and> tree (snd (download_and_install_ftb_pack_from_link E pack_url minecraft_path pack_name w))
           = tree w
       \<and> net (snd (download_and_install_ftb_pack_from_link E pack_url minecraft_path pack_name w))
           = net w
       \<and> stdin (snd (download_and_install_ftb_pack_from_link E pack_url minecraft_path pack_name w))
           = stdin w"
  using assms by (simp add: invalid_link_aborts invalid_link_def)

theorem rejected_link_no_side_effects_witness:
  "\<not> startswith ''ftp://host/pack.zip'' ''http''
   \<and> download_and_install_ftb_pack_from_link example_env ''ftp://host/pack.zip'' [''r''] ''pk''
        example_world =
       (Some Aborted,
        example_world\<lparr>out := out example_world @
           [Say ''Invalid direct download link. Please provide a URL ending with .zip.'']\<rparr>)
   \<and> tree (snd (download_and_install_ftb_pack_from_link example_env ''ftp://host/pack.zip''
         [''r''] ''pk'' example_world)) = tree example_world"
proof -
  have h: "\<not> endswith ''ftp://host/pack.zip'' ''.zip'' \<or> \<not> startswith ''ftp://host/pack.zip'' ''http''"
    by (simp add: startswith_def)
  from rejected_link_no_side_effects [OF h, of example_env "[''r'']" "''pk''" example_world]
  show ?thesis by (simp add: startswith_def)
qed




text \<open>
  C10. A collected link that names an existing local file and also starts with
  \<^verbatim>\<open>http\<close> is handled as a local file: it is handed to \<^verbatim>\<open>shutil.copy2\<close>, the
  outcome of the copy is printed, and no request is made for it.
\<close>

theorem local_file_before_url:
  assumes "loc_is_file (tree w) (str_loc (tree w) (cwd E) link)"
    and "startswith link ''http''"
  shows "process_link E mods_dir link w =
           (case copy2 (tree w) (cwd E) link mods_dir of
              Inr t \<Rightarrow>
                print (Say (''Mod copied from '' @ link @ '' to '' @ path_str mods_dir))
                  (w\<lparr>tree := t\<rparr>)
            | Inl e \<Rightarrow> print (Report (''Error copying mod from '' @ link @ '': '') e) w)
       \<and> net (process_link E mods_dir link w) = net w"
  using assms by (simp add: process_link_def print_def split: sum.splits)

theorem local_file_before_url_witness:
  "loc_is_file (tree scrape_world) (str_loc (tree scrape_world) (cwd scrape_env) ''http.jar'')
   \<and> startswith ''http.jar'' ''http''
   \<and> process_link scrape_env [''r'', ''mods''] ''http.jar'' scrape_world =
       print (Say ''Mod copied from http.jar to /r/mods'')
         (scrape_world\<lparr>tree := tree scrape_world @ [([''r'', ''mods'', ''http.jar''], File ''JAR'')]\<rparr>)
   \<and> net (process_link scrape_env [''r'', ''mods''] ''http.jar'' scrape_world) = net scrape_world"
proof -
  have f: "loc_is_file (tree scrape_world) (str_loc (tree scrape_world) (cwd scrape_env) ''http.jar'')"
    by (simp add: scrape_world_def scrape_env_def example_env_def loc_is_file_def str_loc_def
          startswith_def node_at_def)
  have h: "startswith ''http.jar'' ''http''"
    by (simp add: startswith_def)
  have c: "copy2 (tree scrape_world) (cwd scrape_env) ''http.jar'' [''r'', ''mods''] =
      Inr (tree scrape_world @ [([''r'', ''mods'', ''http.jar''], File ''JAR'')])"
    by (simp add: scrape_world_def scrape_env_def example_env_def copy2_def copyfile_def
          samefile_def loc_exists_def loc_is_dir_def abs_loc_def str_loc_def startswith_def
          basename_def node_at_def read_file_def write_file_def)
  from local_file_before_url [OF f h, of "[''r'', ''mods'']"] f h
  show ?thesis by (simp add: c path_str_def print_def)
qed

subsection \<open>The registry update\<close>

lemma strict_prefix_snoc_iff: "strict_prefix q (xs @ [a]) \<longleftrightarrow> prefix q xs"
proof
  assume "strict_prefix q (xs @ [a])"
  then show "prefix q xs"
    by (simp add: strict_prefix_def) blast
next
  assume p: "prefix q xs"
  then have "length q \<le> length xs" by (rule prefix_length_le)
  then have "q \<noteq> xs @ [a]" by auto
  with p show "strict_prefix q (xs @ [a])"
    by (simp add: strict_prefix_def)
qed

lemma reachable_snoc: "reachable t (xs @ [a]) = (\<forall>q. prefix q xs \<longrightarrow> node_at t q = Some Dir)"
  by (simp add: reachable_def strict_prefix_snoc_iff)

lemma reachable_sibling: "reachable t (xs @ [a]) \<Longrightarrow> reachable t (xs @ [b])"
  by (simp add: reachable_snoc)

lemma reachable_update_other:
  "reachable t p \<Longrightarrow> \<not> strict_prefix q p \<Longrightarrow> q \<noteq> [] \<Longrightarrow> reachable (AList.update q n t) p"
  by (auto simp: reachable_def node_at_update)

lemma read_file_resolved:
  assumes "resolved p" "read_file t (abs_loc t p) = Inr b"
  shows "reachable t p \<and> node_at t p = Some (File b)"
proof -
  from assms(2) obtain q where q: "abs_loc t p = Inr q"
    by (auto simp: read_file_def split: sum.splits)
  with abs_loc_Inr [OF assms(1) q] assms(2) show ?thesis
    by (auto simp: read_file_def split: option.splits node.splits)
qed

lemma read_file_ok:
  "resolved p \<Longrightarrow> reachable t p \<Longrightarrow> node_at t p = Some (File b) \<Longrightarrow>
   read_file t (abs_loc t p) = Inr b"
  by (simp add: abs_loc_reachable read_file_def)

lemma write_file_ok:
  "resolved p \<Longrightarrow> reachable t p \<Longrightarrow> node_at t p \<noteq> Some Dir \<Longrightarrow>
   write_file t (abs_loc t p) b = Inr (AList.update p (File b) t)"
  by (auto simp: abs_loc_reachable write_file_def split: option.splits node.splits)

lemma node_at_root [simp]: "node_at t [] = Some Dir"
  by (simp add: node_at_def)

lemma bak_path_snoc [simp]: "bak_path (xs @ [x]) = xs @ [x @ ''.bak'']"
  by (simp add: bak_path_def)

lemma strict_prefix_snoc_same: "\<not> strict_prefix (xs @ [a]) (xs @ [b])"
  by (simp add: strict_prefix_snoc_iff)

text \<open>
  C3. When the registry file exists and \<^verbatim>\<open>json.load\<close> raises \<^verbatim>\<open>JSONDecodeError\<close>
  on its bytes, the update copies these bytes to the path with the suffix
  \<^verbatim>\<open>.bak\<close> (whether or not a file was there), goes on from the default document,
  and ends normally: afterwards the backup holds the original bytes, the registry
  holds the default document with the one new entry, and nothing else in the tree
  has changed. The update is the same code in both installers. It needs a line to
  read from the console, and the backup path must not be a directory.
\<close>

theorem corrupt_registry_backed_up:
  assumes "resolved minecraft_path"
    and "read_file (tree w) (abs_loc (tree w) (profiles_path minecraft_path)) = Inr b"
    and "json_load E b = Inl JSONDecodeError"
    and "\<not> loc_is_dir (tree w) (abs_loc (tree w) (bak_path (profiles_path minecraft_path)))"
    and "stdin w = v # rest"
  shows "\<exists>w'. update_launcher_profiles E (profiles_path minecraft_path) pack_name game_dir done w =
              (Some Installed, w')
     \<and> read_file (tree w') (abs_loc (tree w') (bak_path (profiles_path minecraft_path))) = Inr b
     \<and> read_file (tree w') (abs_loc (tree w') (profiles_path minecraft_path)) =
         Inr (json_dump E
           (JObj [(''profiles'', JObj [(pack_name, profile_entry pack_name v game_dir)]),
                  (''settings'', JObj []), (''version'', JNum 2)]))
     \<and> (\<forall>q. q \<noteq> profiles_path minecraft_path \<and> q \<noteq> bak_path (profiles_path minecraft_path)
            \<longrightarrow> node_at (tree w') q = node_at (tree w) q)
     \<and> out w' = out w @
         [Say ''Updating launcher profile...'',
          Say ''Error decoding launcher_profiles.json. Backing up the file and creating a new one.'',
          Ask ''Input Minecraft version for modpack: '', done]
     \<and> stdin w' = rest \<and> net w' = net w"
proof -
  let ?p = "minecraft_path @ [''launcher_profiles.json'']"
  let ?k = "minecraft_path @ [''launcher_profiles.json.bak'']"
  let ?d = "JObj [(''profiles'', JObj [(pack_name, profile_entry pack_name v game_dir)]),
                  (''settings'', JObj []), (''version'', JNum 2)]"
  let ?t1 = "AList.update ?k (File b) (tree w)"
  let ?t2 = "AList.update ?p (File (json_dump E ?d)) ?t1"
  have pp: "profiles_path minecraft_path = ?p"
    by (simp add: dir_simps)
  have rp: "resolved ?p" and rk: "resolved ?k"
    using assms(1) by simp_all
  from read_file_resolved [OF rp] assms(2)
  have reach: "reachable (tree w) ?p" and pfile: "node_at (tree w) ?p = Some (File b)"
    by (simp_all add: pp)
  have reachk: "reachable (tree w) ?k"
    using reach by (rule reachable_sibling)
  have lk: "abs_loc (tree w) ?k = Inr ?k" and lp: "abs_loc (tree w) ?p = Inr ?p"
    using rk rp reachk reach by (simp_all add: abs_loc_reachable)
  have nk: "node_at (tree w) ?k \<noteq> Some Dir"
    using assms(4) by (simp add: pp lk loc_is_dir_def)
  have cp: "copyfile (tree w) (abs_loc (tree w) ?p) (abs_loc (tree w) ?k) = Inr ?t1"
    using assms(2) write_file_ok [OF rk reachk nk, of b]
    by (simp add: copyfile_def samefile_def pp lp lk)
  have reach1: "reachable ?t1 ?p" "reachable ?t1 ?k"
    using reach reachk by (simp_all add: reachable_update_other strict_prefix_snoc_same)
  have file1: "node_at ?t1 ?p = Some (File b)"
    using pfile by (simp add: node_at_update)
  then have nd1: "node_at ?t1 ?p \<noteq> Some Dir" by simp
  have wr: "write_file ?t1 (abs_loc ?t1 ?p) (json_dump E ?d) = Inr ?t2"
    by (rule write_file_ok [OF rp reach1(1) nd1])
  have setp: "set_profile default_profiles_data pack_name (profile_entry pack_name v game_dir) = Inr ?d"
    by (simp add: set_profile_def default_profiles_data_def)
  have reach2: "reachable ?t2 ?p" "reachable ?t2 ?k"
    using reach1 by (simp_all add: reachable_update_other strict_prefix_snoc_same)
  let ?w1 = "w\<lparr>out := out w @ [Say ''Updating launcher profile...'',
          Say ''Error decoding launcher_profiles.json. Backing up the file and creating a new one.''],
          tree := ?t1\<rparr>"
  have rd: "read_file (tree w) (abs_loc (tree w) ?p) = Inr b"
    using assms(2) by (simp add: pp)
  have ld: "load_profiles E ?p (print (Say ''Updating launcher profile...'') w) =
      (Inr default_profiles_data, ?w1)"
    by (simp add: load_profiles_def print_def rd assms(3) cp)
  have st: "store_profile E ?p pack_name game_dir done default_profiles_data ?w1 =
      (Some Installed,
       w\<lparr>tree := ?t2, stdin := rest,
         out := out w @
         [Say ''Updating launcher profile...'',
          Say ''Error decoding launcher_profiles.json. Backing up the file and creating a new one.'',
          Ask ''Input Minecraft version for modpack: '', done]\<rparr>)"
    by (simp add: store_profile_def input_def print_def assms(5) setp wr)
  have run: "update_launcher_profiles E (profiles_path minecraft_path) pack_name game_dir done w =
      (Some Installed,
       w\<lparr>tree := ?t2, stdin := rest,
         out := out w @
         [Say ''Updating launcher profile...'',
          Say ''Error decoding launcher_profiles.json. Backing up the file and creating a new one.'',
          Ask ''Input Minecraft version for modpack: '', done]\<rparr>)"
    by (simp add: update_launcher_profiles_def pp ld st)
  have r1: "read_file ?t2 (abs_loc ?t2 ?k) = Inr b"
    by (rule read_file_ok [OF rk reach2(2)]) (simp add: node_at_update)
  have r2: "read_file ?t2 (abs_loc ?t2 ?p) = Inr (json_dump E ?d)"
    by (rule read_file_ok [OF rp reach2(1)]) (simp add: node_at_update)
  show ?thesis
    unfolding run using r1 r2 by (simp add: pp node_at_update)
qed

theorem corrupt_registry_backed_up_witness:
  "resolved [''r'']
   \<and> read_file (tree corrupt_world) (abs_loc (tree corrupt_world) (profiles_path [''r''])) =
       Inr ''not json''
   \<and> json_load example_env ''not json'' = Inl JSONDecodeError
   \<and> \<not> loc_is_dir (tree corrupt_world)
         (abs_loc (tree corrupt_world) (bak_path (profiles_path [''r''])))
   \<and> stdin corrupt_world = [''1.20.1'']
   \<and> (\<exists>w'. update_launcher_profiles example_env (profiles_path [''r'']) ''pk'' ''/r''
              (mods_installed_message ''pk'') corrupt_world = (Some Installed, w')
        \<and> read_file (tree w') (abs_loc (tree w') (bak_path (profiles_path [''r'']))) =
            Inr ''not json''
        \<and> read_file (tree w') (abs_loc (tree w') (profiles_path [''r''])) =
            Inr (json_dump example_env
              (JObj [(''profiles'', JObj [(''pk'', profile_entry ''pk'' ''1.20.1'' ''/r'')]),
                     (''settings'', JObj []), (''version'', JNum 2)]))
        \<and> stdin w' = [])"
proof -
  have h1: "resolved [''r'']" by simp
  have h2: "read_file (tree corrupt_world) (abs_loc (tree corrupt_world) (profiles_path [''r''])) =
       Inr ''not json''"
    by (simp add: corrupt_world_def dir_simps abs_loc_def read_file_def node_at_def)
  have h3: "json_load example_env ''not json'' = Inl JSONDecodeError"
    by (simp add: example_env_def)
  have h4: "\<not> loc_is_dir (tree corrupt_world)
         (abs_loc (tree corrupt_world) (bak_path (profiles_path [''r''])))"
    by (simp add: corrupt_world_def dir_simps bak_path_def abs_loc_def loc_is_dir_def node_at_def)
  have h5: "stdin corrupt_world = [''1.20.1'']"
    by (simp add: corrupt_world_def)
  from corrupt_registry_backed_up [OF h1 h2 h3 h4 h5, of "''pk''" "''/r''" "mods_installed_message ''pk''"]
  show ?thesis using h1 h2 h3 h4 h5 by blast
qed

subsection \<open>The archive installer, end to end\<close>



















subsection \<open>An example run\<close>











subsection \<open>What extraction can touch\<close>

lemma normpath_resolved_aux:
  "resolved p \<Longrightarrow>
   foldl (\<lambda>acc c. if c = [] \<or> c = ''.'' then acc
                   else if c = ''..'' then butlast acc else acc @ [c]) acc p = acc @ p"
  by (induction p arbitrary: acc) simp_all

lemma normpath_resolved: "resolved p \<Longrightarrow> normpath p = p"
  by (simp add: normpath_def normpath_resolved_aux)

lemma resolved_arc_parts: "resolved (arc_parts name)"
  by (simp add: arc_parts_def resolved_def)

lemma prefix_append_cases: "prefix q (d @ a) \<Longrightarrow> prefix q d \<or> prefix d q"
  by (auto simp: prefix_append)

lemma write_file_effect:
  assumes "resolved p" "write_file t (abs_loc t p) b = Inr t'"
  shows "node_at t' q = (if q = p then Some (File b) else node_at t q)"
  using write_file_resolved [OF assms] by (simp add: node_at_update)

lemma makedirs_effect:
  "makedirs t p = Inr t' \<Longrightarrow> resolved p \<Longrightarrow>
   (\<forall>q. node_at t' q = node_at t q \<or> (node_at t q = None \<and> node_at t' q = Some Dir \<and> prefix q p))"
proof (induction t p arbitrary: t' rule: makedirs.induct)
  case (1 t name)
  note res = \<open>resolved name\<close>
  show ?case
  proof (cases "name \<noteq> [] \<and> \<not> loc_exists t (abs_loc t (butlast name))")
    case False
    with "1.prems"(1) have "os_mkdir t (abs_loc t name) = Inr t'"
      by (auto simp: makedirs.simps [of t name])
    from os_mkdir_effect [OF res this] show ?thesis by blast
  next
    case True
    have pb: "\<And>q. prefix q (butlast name) \<Longrightarrow> prefix q name"
      using True by (metis append_butlast_last_id prefix_prefix)
    show ?thesis
    proof (cases "makedirs t (butlast name)")
      case (Inl e)
      with True "1.prems"(1) have "os_mkdir t (abs_loc t name) = Inr t'"
        by (auto simp: makedirs.simps [of t name] split: if_splits)
      from os_mkdir_effect [OF res this] show ?thesis by blast
    next
      case (Inr t1)
      with True "1.prems"(1) have m: "os_mkdir t1 (abs_loc t1 name) = Inr t'"
        by (auto simp: makedirs.simps [of t name])
      from "1.IH" [OF True Inr resolved_butlast [OF res]]
      have ih: "\<And>q. node_at t1 q = node_at t q \<or>
           (node_at t q = None \<and> node_at t1 q = Some Dir \<and> prefix q (butlast name))"
        by blast
      show ?thesis
      proof (intro allI)
        fix q
        from os_mkdir_effect [OF res m, of q] ih [of q] pb [of q]
        show "node_at t' q = node_at t q \<or>
           (node_at t q = None \<and> node_at t' q = Some Dir \<and> prefix q name)"
          by (metis option.distinct(1))
      qed
    qed
  qed
qed

lemma extract_member_effect:
  assumes "extract_member t dir m = Inr t'" "resolved dir"
    and "\<not> prefix q dir" "\<not> prefix dir q"
  shows "node_at t' q = node_at t q"
proof -
  let ?target = "dir @ arc_parts (fst m)"
  have rt: "resolved ?target"
    using assms(2) by (simp add: resolved_arc_parts)
  have np: "normpath ?target = ?target"
    using rt by (rule normpath_resolved)
  have nq: "\<not> prefix q ?target"
    using assms(3,4) prefix_append_cases by blast
  then have nq': "\<not> prefix q (butlast ?target)"
    by (metis butlast.simps(1) append_butlast_last_id prefix_prefix)
  from assms(1) obtain t1 where
    t1: "t1 = t \<or> makedirs t (butlast ?target) = Inr t1"
    and t': "t' = t1 \<or> os_mkdir t1 (abs_loc t1 ?target) = Inr t'
        \<or> write_file t1 (abs_loc t1 ?target) (snd m) = Inr t'"
    by (auto simp: extract_member_def np Let_def split: if_splits sum.splits)
  from t1 have 1: "node_at t1 q = node_at t q"
    using makedirs_effect [OF _ resolved_butlast [OF rt], of t t1] nq' by blast
  from t' have 2: "node_at t' q = node_at t1 q"
    using os_mkdir_effect [OF rt, of t1 t' q] write_file_effect [OF rt, of t1 "snd m" t' q] nq
    by auto
  from 1 2 show ?thesis by simp
qed

lemma extract_members_effect:
  assumes "extract_members t dir ms = (r, t')" "resolved dir"
    and "\<not> prefix q dir" "\<not> prefix dir q"
  shows "node_at t' q = node_at t q"
  using assms(1)
proof (induction ms arbitrary: t)
  case Nil
  then show ?case by simp
next
  case (Cons m ms)
  show ?case
  proof (cases "extract_member t dir m")
    case (Inl e)
    with Cons.prems show ?thesis by simp
  next
    case (Inr t1)
    with Cons.prems have "extract_members t1 dir ms = (r, t')" by simp
    from Cons.IH [OF this] extract_member_effect [OF Inr assms(2,3,4)]
    show ?thesis by simp
  qed
qed


lemma path_mkdir_cases:
  assumes "path_mkdir p w = (r, w')"
  shows "(\<exists>e. r = Some (Crashed e)) \<or> (\<exists>t. r = None \<and> mkdir_parents (tree w) p = Inr t \<and> w' = w\<lparr>tree := t\<rparr>)"
  using assms by (auto simp: path_mkdir_def split: sum.splits)








lemma path_mkdir_made:
  assumes "path_mkdir p w = (None, w')" "resolved p"
  shows "node_at (tree w') p = Some Dir \<and> reachable (tree w') p"
proof -
  from path_mkdir_cases [OF assms(1)] obtain t where
    "mkdir_parents (tree w) p = Inr t" "w' = w\<lparr>tree := t\<rparr>"
    by auto
  with mkdir_parents_effect [OF _ assms(2), of "tree w" t] show ?thesis by simp
qed

lemma grows_refl [simp]: "grows t t"
  by (simp add: grows_def)

lemma grows_trans: "grows t t1 \<Longrightarrow> grows t1 t2 \<Longrightarrow> grows t t2"
  by (simp add: grows_def)

lemma write_file_loc_grows:
  assumes "write_file t l b = Inr t'"
  shows "grows t t'"
proof -
  from assms obtain q where q: "l = Inr q" "node_at t q \<noteq> Some Dir"
    and t': "t' = AList.update q (File b) t"
    by (auto simp: write_file_def split: sum.splits option.splits node.splits)
  from q(2) have "q \<noteq> []" by auto
  then show ?thesis
    using q(2) by (auto simp: grows_def t' node_at_update)
qed

lemma os_mkdir_grows:
  "resolved p \<Longrightarrow> os_mkdir t (abs_loc t p) = Inr t' \<Longrightarrow> grows t t'"
  unfolding grows_def using os_mkdir_effect by (metis option.distinct(1))

lemma write_file_grows:
  assumes "resolved p" "write_file t (abs_loc t p) b = Inr t'"
  shows "grows t t'"
  using write_file_resolved [OF assms] write_file_effect [OF assms]
  by (auto simp: grows_def)


lemma makedirs_grows:
  "resolved p \<Longrightarrow> makedirs t p = Inr t' \<Longrightarrow> grows t t'"
  unfolding grows_def using makedirs_effect by (metis option.distinct(1))

lemma extract_member_grows:
  assumes "extract_member t dir m = Inr t'" "resolved dir"
  shows "grows t t'"
proof -
  let ?target = "dir @ arc_parts (fst m)"
  have rt: "resolved ?target"
    using assms(2) by (simp add: resolved_arc_parts)
  have np: "normpath ?target = ?target"
    using rt by (rule normpath_resolved)
  from assms(1) obtain t1 where
    t1: "t1 = t \<or> makedirs t (butlast ?target) = Inr t1"
    and t': "t' = t1 \<or> os_mkdir t1 (abs_loc t1 ?target) = Inr t'
        \<or> write_file t1 (abs_loc t1 ?target) (snd m) = Inr t'"
    by (auto simp: extract_member_def np Let_def split: if_splits sum.splits)
  from t1 have 1: "grows t t1"
    using makedirs_grows [OF resolved_butlast [OF rt]] by auto
  from t' have 2: "grows t1 t'"
    using os_mkdir_grows [OF rt] write_file_grows [OF rt] by auto
  from 1 2 show ?thesis by (rule grows_trans)
qed

lemma extract_members_grows:
  assumes "extract_members t dir ms = (r, t')" "resolved dir"
  shows "grows t t'"
  using assms(1)
proof (induction ms arbitrary: t)
  case Nil
  then show ?case by simp
next
  case (Cons m ms)
  show ?case
  proof (cases "extract_member t dir m")
    case (Inl e)
    with Cons.prems show ?thesis by simp
  next
    case (Inr t1)
    with Cons.prems have "extract_members t1 dir ms = (r, t')" by simp
    from Cons.IH [OF this] extract_member_grows [OF Inr assms(2)]
    show ?thesis by (metis grows_trans)
  qed
qed





subsection \<open>A failed download or extraction\<close>










subsection \<open>The scrape installer, link by link\<close>

lemma load_profiles_out:
  "\<exists>ms. out (snd (load_profiles E p w)) = out w @ ms"
  by (auto simp: load_profiles_def print_def Let_def split: sum.splits)

lemma store_profile_out:
  "\<exists>ms. out (snd (store_profile E p N g d doc w)) = out w @ ms"
  by (auto simp: store_profile_def input_def print_def split: list.splits sum.splits)

lemma update_launcher_profiles_out:
  "\<exists>ms. out (snd (update_launcher_profiles E p N g d w)) =
     out w @ Say ''Updating launcher profile...'' # ms"
proof -
  let ?w0 = "print (Say ''Updating launcher profile...'') w"
  obtain r w1 where l: "load_profiles E p ?w0 = (r, w1)"
    by (cases "load_profiles E p ?w0")
  from load_profiles_out [of E p ?w0] l obtain ms where
    1: "out w1 = out w @ Say ''Updating launcher profile...'' # ms"
    by (auto simp: print_def)
  show ?thesis
  proof (cases r)
    case (Inl e)
    with l 1 show ?thesis by (simp add: update_launcher_profiles_def)
  next
    case (Inr doc)
    from store_profile_out [of E p N g d doc w1] obtain ms' where
      "out (snd (store_profile E p N g d doc w1)) = out w1 @ ms'"
      by blast
    with Inr l 1 show ?thesis by (simp add: update_launcher_profiles_def)
  qed
qed

lemma copy2_Inr:
  assumes "copy2 t wd src dst = Inr t'" "loc_is_dir t (abs_loc t dst)"
  shows "\<exists>b. read_file t (str_loc t wd src) = Inr b
     \<and> write_file t (abs_loc t (dst @ [basename src])) b = Inr t'"
  using assms by (auto simp: copy2_def copyfile_def split: if_splits sum.splits)

lemma process_link_stdin: "stdin (process_link E m l w) = stdin w"
  by (auto simp: process_link_def print_def Let_def split: sum.splits option.splits prod.splits)

lemma process_links_stdin: "stdin (process_links E m ls w) = stdin w"
  by (induction ls arbitrary: w) (simp_all add: process_link_stdin)

lemma process_link_unsupported:
  "\<not> loc_is_file (tree w) (str_loc (tree w) (cwd E) link) \<Longrightarrow> \<not> startswith link ''http'' \<Longrightarrow>
   process_link E m link w = print (Say (''Unsupported link type: '' @ link)) w"
  by (simp add: process_link_def)

lemma process_link_download:
  assumes "\<not> loc_is_file (tree w) (str_loc (tree w) (cwd E) link)" "startswith link ''http''"
  shows "net (process_link E m link w) = net w @ [link]
     \<and> (\<exists>msg. out (process_link E m link w) =
             out w @ [Say (''Downloading mod from '' @ link @ ''...''), msg]
         \<and> ((msg = Say (''Mod '' @ path_name link @ '' downloaded successfully!'')
              \<and> (\<exists>chunks. http_get E link = Some (200, chunks, True)
                   \<and> write_file (tree w) (abs_loc (tree w) (pjoin m (path_name link)))
                        (concat chunks) = Inr (tree (process_link E m link w))))
            \<or> ((\<exists>e. msg = Report (''Error downloading mod from '' @ link @ '': '') e)
                \<or> (\<exists>c. c \<noteq> 200 \<and>
                      msg = SayNum (''Failed to download mod from '' @ link @ ''. Status code: '') c))))"
  using assms
  by (auto simp: process_link_def print_def Let_def split: sum.splits option.splits prod.splits)

lemma splitc_nonempty: "splitc s \<noteq> []"
  by (induction s) (auto split: list.splits)

lemma splitc_append_slash: "splitc (s @ CHR ''/'' # n) = splitc s @ splitc n"
proof (induction s)
  case Nil
  show ?case by simp
next
  case (Cons c s)
  obtain x xs where x: "splitc s = x # xs"
    using splitc_nonempty [of s] by (cases "splitc s") auto
  with Cons show ?case by simp
qed

lemma path_name_last_segment:
  assumes "plain_name n"
  shows "path_name (s @ ''/'' @ n) = n"
proof -
  have "splitc (s @ ''/'' @ n) = splitc s @ [n]"
    using assms by (simp add: splitc_append_slash splitc_plain plain_name_def)
  then show ?thesis
    using assms by (simp add: path_name_def py_parts_def plain_name_def)
qed

lemma process_link_grows: "grows (tree w) (tree (process_link E m l w))"
proof -
  have c: "\<And>t. copy2 (tree w) (cwd E) l m = Inr t \<Longrightarrow> grows (tree w) t"
    by (auto simp: copy2_def copyfile_def split: if_splits sum.splits
             intro: write_file_loc_grows)
  show ?thesis
    using c
    by (auto simp: process_link_def print_def Let_def
             split: sum.splits option.splits prod.splits intro: write_file_loc_grows)
qed

lemma process_links_grows: "grows (tree w) (tree (process_links E m ls w))"
proof (induction ls arbitrary: w)
  case Nil
  show ?case by simp
next
  case (Cons l ls)
  from process_link_grows [of w E m l] Cons [of "process_link E m l w"]
  show ?case by (auto intro: grows_trans)
qed

lemma reachable_grows: "reachable t p \<Longrightarrow> grows t t' \<Longrightarrow> reachable t' p"
  by (simp add: reachable_def grows_def)

lemma loc_is_dir_grows:
  assumes "resolved p" "loc_is_dir t (abs_loc t p)" "grows t t'"
  shows "loc_is_dir t' (abs_loc t' p)"
proof -
  from loc_is_dir_resolved [OF assms(1,2)]
  have "node_at t p = Some Dir" "reachable t p" by simp_all
  with assms(3) have "node_at t' p = Some Dir" "reachable t' p"
    by (auto simp: grows_def intro: reachable_grows)
  with assms(1) show ?thesis
    by (simp add: abs_loc_reachable loc_is_dir_def)
qed

lemma install_from_anchors_run:
  assumes "fst (path_mkdir (pjoin R ''mods'') w) = None"
  shows "install_from_anchors E anchors R N w =
     update_launcher_profiles E (profiles_path R) N (path_str R) (mods_installed_message N)
       (process_links E (pjoin R ''mods'') (find_mod_links anchors)
          (snd (path_mkdir (pjoin R ''mods'') w)))"
proof -
  obtain w1 where "path_mkdir (pjoin R ''mods'') w = (None, w1)"
    using assms by (cases "path_mkdir (pjoin R ''mods'') w") auto
  then show ?thesis
    by (cases "update_launcher_profiles E (profiles_path R) N (path_str R)
                 (mods_installed_message N)
                 (process_links E (pjoin R ''mods'') (find_mod_links anchors) w1)")
       (auto simp: install_from_anchors_def split: option.splits)
qed

text \<open>
  The claim C5 as it is written fails: \<^verbatim>\<open>httpd.jar\<close> is collected, names no
  file and is no HTTP(S) URL, yet it is not reported as unsupported. It starts
  with \<^verbatim>\<open>http\<close>, so \<^verbatim>\<open>requests.get\<close> is called for it and its failure is
  what gets reported.
\<close>

theorem http_prefix_link_counterexample:
  "keep_href (Some ''httpd.jar'')
   \<and> \<not> loc_is_file (tree scrape_world) (str_loc (tree scrape_world) (cwd scrape_env) ''httpd.jar'')
   \<and> \<not> spec_http_scheme ''httpd.jar''
   \<and> process_link scrape_env [''r'', ''mods''] ''httpd.jar'' scrape_world =
       scrape_world
         \<lparr>out := [Say ''Downloading mod from httpd.jar...'',
                  Report ''Error downloading mod from httpd.jar: '' RequestException],
          net := [''httpd.jar'']\<rparr>
   \<and> process_link scrape_env [''r'', ''mods''] ''httpd.jar'' scrape_world \<noteq>
       print (Say ''Unsupported link type: httpd.jar'') scrape_world"
proof -
  have f: "\<not> loc_is_file (tree scrape_world)
             (str_loc (tree scrape_world) (cwd scrape_env) ''httpd.jar'')"
    by (simp add: scrape_world_def scrape_env_def example_env_def loc_is_file_def str_loc_def
          startswith_def node_at_def)
  have r: "process_link scrape_env [''r'', ''mods''] ''httpd.jar'' scrape_world =
       scrape_world
         \<lparr>out := [Say ''Downloading mod from httpd.jar...'',
                  Report ''Error downloading mod from httpd.jar: '' RequestException],
          net := [''httpd.jar'']\<rparr>"
    using f
    by (simp add: process_link_def print_def startswith_def scrape_env_def example_env_def
          scrape_world_def)
  show ?thesis
    unfolding r using f
    by (simp add: keep_href_simps endswith_def suffix_to_prefix spec_http_scheme_def print_def
          scrape_world_def)
qed

lemma splitc_no_slash: "x \<in> set (splitc s) \<Longrightarrow> CHR ''/'' \<notin> set x"
proof (induction s arbitrary: x)
  case Nil
  then show ?case by simp
next
  case (Cons c s)
  obtain y ys where y: "splitc s = y # ys"
    using splitc_nonempty [of s] by (cases "splitc s") auto
  with Cons show ?case by (auto split: if_splits)
qed

lemma splitc_append_plain:
  "CHR ''/'' \<notin> set e \<Longrightarrow> splitc (s @ e) = butlast (splitc s) @ [last (splitc s) @ e]"
proof (induction s)
  case Nil
  then show ?case by (simp add: splitc_plain)
next
  case (Cons c s)
  obtain y ys where y: "splitc s = y # ys"
    using splitc_nonempty [of s] by (cases "splitc s") auto
  with Cons show ?case by (cases ys) auto
qed

lemma collected_name:
  assumes "keep_href (Some link)"
  shows "plain_name (basename link) \<and> path_name link = basename link"
proof -
  from assms obtain s e where l: "link = s @ e" and e: "e = ''.jar'' \<or> e = ''.zip''"
    by (auto simp: keep_href_simps endswith_def suffix_def)
  from e have ne: "CHR ''/'' \<notin> set e" by auto
  have sp: "splitc link = butlast (splitc s) @ [last (splitc s) @ e]"
    unfolding l using ne by (rule splitc_append_plain)
  then have b: "basename link = last (splitc s) @ e"
    by (simp add: basename_def)
  have "last (splitc s) \<in> set (splitc s)"
    using splitc_nonempty by simp
  then have "CHR ''/'' \<notin> set (last (splitc s))"
    by (rule splitc_no_slash)
  with ne e have p: "plain_name (basename link)"
    unfolding b plain_name_def by auto
  then have "path_name link = basename link"
    unfolding b by (simp add: path_name_def py_parts_def sp plain_name_def)
  with p show ?thesis by simp
qed

lemma dir_child:
  assumes "resolved m" "loc_is_dir t (abs_loc t m)" "plain_name n"
  shows "resolved (m @ [n]) \<and> reachable t (m @ [n]) \<and> abs_loc t (m @ [n]) = Inr (m @ [n])"
proof -
  from assms(3) have r: "resolved (m @ [n])"
    using assms(1) by (simp add: plain_name_def)
  from loc_is_dir_resolved [OF assms(1,2)] have "reachable t (m @ [n])"
    by (simp add: reachable_snoc reachable_def strict_prefix_def) (metis prefix_order.order_refl)
  with r show ?thesis by (simp add: abs_loc_reachable)
qed

lemma file_written:
  assumes "resolved p" "reachable t p" "node_at t p \<noteq> Some Dir"
  shows "read_file (AList.update p (File b) t) (abs_loc (AList.update p (File b) t) p) = Inr b"
proof -
  from assms(3) have ne: "p \<noteq> []" by auto
  show ?thesis
    by (rule read_file_ok [OF assms(1)])
       (simp_all add: assms(2) ne reachable_update node_at_update)
qed

lemma process_link_status_200:
  assumes "\<not> loc_is_file (tree w) (str_loc (tree w) (cwd E) link)" "startswith link ''http''"
    and "http_get E link = Some (200, chunks, whole)"
  shows "(\<forall>t. write_file (tree w) (abs_loc (tree w) (pjoin m (path_name link)))
                (concat chunks) = Inr t \<longrightarrow>
            process_link E m link w =
              w\<lparr>tree := t, net := net w @ [link],
                out := out w @
                  [Say (''Downloading mod from '' @ link @ ''...''),
                   if whole then Say (''Mod '' @ path_name link @ '' downloaded successfully!'')
                   else Report (''Error downloading mod from '' @ link @ '': '') RequestException]\<rparr>)
       \<and> (\<forall>e. write_file (tree w) (abs_loc (tree w) (pjoin m (path_name link)))
                (concat chunks) = Inl e \<longrightarrow>
            process_link E m link w =
              w\<lparr>net := net w @ [link],
                out := out w @
                  [Say (''Downloading mod from '' @ link @ ''...''),
                   Report (''Error downloading mod from '' @ link @ '': '') e]\<rparr>)"
  using assms by (simp add: process_link_def print_def Let_def)

lemma process_link_written:
  assumes "\<not> loc_is_file (tree w) (str_loc (tree w) (cwd E) link)" "startswith link ''http''"
    and "http_get E link = Some (200, chunks, whole)"
    and "keep_href (Some link)" "resolved m" "loc_is_dir (tree w) (abs_loc (tree w) m)"
    and "node_at (tree w) (m @ [path_name link]) \<noteq> Some Dir"
  shows "tree (process_link E m link w) =
           AList.update (m @ [path_name link]) (File (concat chunks)) (tree w)
       \<and> read_file (tree (process_link E m link w))
           (abs_loc (tree (process_link E m link w)) (m @ [path_name link])) = Inr (concat chunks)"
proof -
  let ?n = "path_name link"
  from collected_name [OF assms(4)] have pn: "plain_name ?n" by simp
  from dir_child [OF assms(5,6) pn]
  have r: "resolved (m @ [?n])" and re: "reachable (tree w) (m @ [?n])" by simp_all
  have pj: "pjoin m ?n = m @ [?n]" using pn by (rule pjoin_plain)
  have wr: "write_file (tree w) (abs_loc (tree w) (pjoin m ?n)) (concat chunks) =
      Inr (AList.update (m @ [?n]) (File (concat chunks)) (tree w))"
    unfolding pj by (rule write_file_ok [OF r re assms(7)])
  from process_link_status_200 [OF assms(1,2,3), of m] wr
  have t: "tree (process_link E m link w) =
      AList.update (m @ [?n]) (File (concat chunks)) (tree w)"
    by simp
  show ?thesis
    unfolding t using file_written [OF r re assms(7)] by simp
qed

lemma process_link_refused:
  assumes "\<not> loc_is_file (tree w) (str_loc (tree w) (cwd E) link)" "startswith link ''http''"
  shows "(\<forall>c chunks whole. http_get E link = Some (c, chunks, whole) \<and> c \<noteq> 200 \<longrightarrow>
            process_link E m link w =
              w\<lparr>net := net w @ [link],
                out := out w @
                  [Say (''Downloading mod from '' @ link @ ''...''),
                   SayNum (''Failed to download mod from '' @ link @ ''. Status code: '') c]\<rparr>)
       \<and> (http_get E link = None \<longrightarrow>
            process_link E m link w =
              w\<lparr>net := net w @ [link],
                out := out w @
                  [Say (''Downloading mod from '' @ link @ ''...''),
                   Report (''Error downloading mod from '' @ link @ '': '') RequestException]\<rparr>)"
  using assms by (simp add: process_link_def print_def Let_def)

lemma process_link_copied:
  assumes "read_file (tree w) (str_loc (tree w) (cwd E) link) = Inr b"
    and "keep_href (Some link)" "resolved m" "loc_is_dir (tree w) (abs_loc (tree w) m)"
    and "node_at (tree w) (m @ [basename link]) \<noteq> Some Dir"
    and "str_loc (tree w) (cwd E) link \<noteq> Inr (m @ [basename link])"
  shows "process_link E m link w =
           w\<lparr>tree := AList.update (m @ [basename link]) (File b) (tree w),
             out := out w @ [Say (''Mod copied from '' @ link @ '' to '' @ path_str m)]\<rparr>
       \<and> read_file (AList.update (m @ [basename link]) (File b) (tree w))
           (abs_loc (AList.update (m @ [basename link]) (File b) (tree w)) (m @ [basename link])) =
           Inr b"
proof -
  let ?n = "basename link"
  from collected_name [OF assms(2)] have pn: "plain_name ?n" by simp
  from dir_child [OF assms(3,4) pn]
  have r: "resolved (m @ [?n])" and re: "reachable (tree w) (m @ [?n])"
    and l: "abs_loc (tree w) (m @ [?n]) = Inr (m @ [?n])"
    by simp_all
  from assms(1) have f: "loc_is_file (tree w) (str_loc (tree w) (cwd E) link)"
    by (auto simp: read_file_def loc_is_file_def split: sum.splits option.splits node.splits)
  have c: "copy2 (tree w) (cwd E) link m = Inr (AList.update (m @ [?n]) (File b) (tree w))"
    using assms(1,4,6) write_file_ok [OF r re assms(5), of b]
    by (simp add: copy2_def copyfile_def samefile_def l)
  show ?thesis
    using f c file_written [OF r re assms(5)]
    by (simp add: process_link_def print_def)
qed

lemma process_links_append:
  "process_links E m (xs @ ys) w = process_links E m ys (process_links E m xs w)"
  by (induction xs arbitrary: w) simp_all

text \<open>
  C5, as amended. What is done with a collected link.

  When it names an existing local file, \<^verbatim>\<open>shutil.copy2\<close> is called and no
  request is made; the copy or its failure is reported. Where the mods directory
  is a directory, the target in it is not one and the link does not name that
  target itself, the bytes of the file are afterwards in the mods directory under
  the base name of the link.

  Otherwise, when it starts with \<^verbatim>\<open>http\<close>, a request is made. On status 200
  the chunks received are written to \<^verbatim>\<open>mods_dir / Path(link).name\<close>, and
  success is reported, or an error when the stream broke or the file could not be
  written; where the mods directory is a directory and the target in it is not
  one, the file holds the chunks afterwards. On another status the status is
  reported, on an exception the exception; in both cases the tree stays as it is.
  The name is what follows the last slash of the link, and for a collected link
  it is one plain component.

  Otherwise the link is reported as unsupported and nothing else happens.

  The loop handles every link of the list in order, whatever happened to the
  links before it; it reads nothing from the console and removes nothing from the
  tree. When the mods directory could be made, the run is the registry update
  started in the world the loop returned, whose first line is then printed, and
  the mods directory is a directory all along.
\<close>

theorem scrape_links_dispatch:
  "(loc_is_file (tree w) (str_loc (tree w) (cwd E) link) \<longrightarrow>
      net (process_link E mods_dir link w) = net w
    \<and> (\<forall>t. copy2 (tree w) (cwd E) link mods_dir = Inr t \<longrightarrow>
          process_link E mods_dir link w =
            print (Say (''Mod copied from '' @ link @ '' to '' @ path_str mods_dir))
              (w\<lparr>tree := t\<rparr>)
        \<and> (loc_is_dir (tree w) (abs_loc (tree w) mods_dir) \<longrightarrow>
            (\<exists>b. read_file (tree w) (str_loc (tree w) (cwd E) link) = Inr b
               \<and> write_file (tree w) (abs_loc (tree w) (mods_dir @ [basename link])) b = Inr t)))
    \<and> (\<forall>e. copy2 (tree w) (cwd E) link mods_dir = Inl e \<longrightarrow>
          process_link E mods_dir link w =
            print (Report (''Error copying mod from '' @ link @ '': '') e) w))
   \<and> (read_file (tree w) (str_loc (tree w) (cwd E) link) = Inr b
      \<and> keep_href (Some link) \<and> resolved mods_dir
      \<and> loc_is_dir (tree w) (abs_loc (tree w) mods_dir)
      \<and> node_at (tree w) (mods_dir @ [basename link]) \<noteq> Some Dir
      \<and> str_loc (tree w) (cwd E) link \<noteq> Inr (mods_dir @ [basename link]) \<longrightarrow>
        process_link E mods_dir link w =
          w\<lparr>tree := AList.update (mods_dir @ [basename link]) (File b) (tree w),
            out := out w @ [Say (''Mod copied from '' @ link @ '' to '' @ path_str mods_dir)]\<rparr>
      \<and> read_file (AList.update (mods_dir @ [basename link]) (File b) (tree w))
          (abs_loc (AList.update (mods_dir @ [basename link]) (File b) (tree w))
             (mods_dir @ [basename link])) = Inr b)
   \<and> (\<not> loc_is_file (tree w) (str_loc (tree w) (cwd E) link) \<and> startswith link ''http'' \<longrightarrow>
        net (process_link E mods_dir link w) = net w @ [link]
      \<and> (\<exists>msg. out (process_link E mods_dir link w) =
             out w @ [Say (''Downloading mod from '' @ link @ ''...''), msg]
         \<and> ((msg = Say (''Mod '' @ path_name link @ '' downloaded successfully!'')
              \<and> (\<exists>chunks. http_get E link = Some (200, chunks, True)
                   \<and> write_file (tree w) (abs_loc (tree w) (pjoin mods_dir (path_name link)))
                        (concat chunks) = Inr (tree (process_link E mods_dir link w))))
            \<or> ((\<exists>e. msg = Report (''Error downloading mod from '' @ link @ '': '') e)
                \<or> (\<exists>c. c \<noteq> 200 \<and>
                      msg = SayNum (''Failed to download mod from '' @ link
                                     @ ''. Status code: '') c)))))
   \<and> (\<not> loc_is_file (tree w) (str_loc (tree w) (cwd E) link) \<and> startswith link ''http''
      \<and> http_get E link = Some (200, chunks, whole) \<longrightarrow>
        (\<forall>t. write_file (tree w) (abs_loc (tree w) (pjoin mods_dir (path_name link)))
                (concat chunks) = Inr t \<longrightarrow>
            process_link E mods_dir link w =
              w\<lparr>tree := t, net := net w @ [link],
                out := out w @
                  [Say (''Downloading mod from '' @ link @ ''...''),
                   if whole then Say (''Mod '' @ path_name link @ '' downloaded successfully!'')
                   else Report (''Error downloading mod from '' @ link @ '': '') RequestException]\<rparr>)
       \<and> (\<forall>e. write_file (tree w) (abs_loc (tree w) (pjoin mods_dir (path_name link)))
                (concat chunks) = Inl e \<longrightarrow>
            process_link E mods_dir link w =
              w\<lparr>net := net w @ [link],
                out := out w @
                  [Say (''Downloading mod from '' @ link @ ''...''),
                   Report (''Error downloading mod from '' @ link @ '': '') e]\<rparr>))
   \<and> (\<not> loc_is_file (tree w) (str_loc (tree w) (cwd E) link) \<and> startswith link ''http''
      \<and> http_get E link = Some (200, chunks, whole)
      \<and> keep_href (Some link) \<and> resolved mods_dir
      \<and> loc_is_dir (tree w) (abs_loc (tree w) mods_dir)
      \<and> node_at (tree w) (mods_dir @ [path_name link]) \<noteq> Some Dir \<longrightarrow>
        tree (process_link E mods_dir link w) =
          AList.update (mods_dir @ [path_name link]) (File (concat chunks)) (tree w)
      \<and> read_file (tree (process_link E mods_dir link w))
          (abs_loc (tree (process_link E mods_dir link w)) (mods_dir @ [path_name link])) =
          Inr (concat chunks))
   \<and> (\<not> loc_is_file (tree w) (str_loc (tree w) (cwd E) link) \<and> startswith link ''http'' \<longrightarrow>
        (\<forall>c cs wh. http_get E link = Some (c, cs, wh) \<and> c \<noteq> 200 \<longrightarrow>
            process_link E mods_dir link w =
              w\<lparr>net := net w @ [link],
                out := out w @
                  [Say (''Downloading mod from '' @ link @ ''...''),
                   SayNum (''Failed to download mod from '' @ link @ ''. Status code: '') c]\<rparr>)
       \<and> (http_get E link = None \<longrightarrow>
            process_link E mods_dir link w =
              w\<lparr>net := net w @ [link],
                out := out w @
                  [Say (''Downloading mod from '' @ link @ ''...''),
                   Report (''Error downloading mod from '' @ link @ '': '') RequestException]\<rparr>))
   \<and> (plain_name n \<longrightarrow> path_name (s @ ''/'' @ n) = n)
   \<and> (keep_href (Some link) \<longrightarrow> plain_name (path_name link) \<and> path_name link = basename link)
   \<and> (\<not> loc_is_file (tree w) (str_loc (tree w) (cwd E) link) \<and> \<not> startswith link ''http'' \<longrightarrow>
        process_link E mods_dir link w = print (Say (''Unsupported link type: '' @ link)) w)
   \<and> process_links E mods_dir (links @ link # links') w =
       process_links E mods_dir links'
         (process_link E mods_dir link (process_links E mods_dir links w))
   \<and> stdin (process_links E mods_dir links w) = stdin w
   \<and> grows (tree w) (tree (process_links E mods_dir links w))
   \<and> (fst (path_mkdir (pjoin minecraft_path ''mods'') w) = None \<longrightarrow>
        install_from_anchors E anchors minecraft_path pack_name w =
          update_launcher_profiles E (profiles_path minecraft_path) pack_name
            (path_str minecraft_path) (mods_installed_message pack_name)
            (process_links E (pjoin minecraft_path ''mods'') (find_mod_links anchors)
               (snd (path_mkdir (pjoin minecraft_path ''mods'') w)))
      \<and> (\<exists>ms. out (snd (install_from_anchors E anchors minecraft_path pack_name w)) =
             out (process_links E (pjoin minecraft_path ''mods'') (find_mod_links anchors)
                    (snd (path_mkdir (pjoin minecraft_path ''mods'') w)))
             @ Say ''Updating launcher profile...'' # ms)
      \<and> (resolved minecraft_path \<longrightarrow>
            loc_is_dir
              (tree (process_links E (pjoin minecraft_path ''mods'') links
                       (snd (path_mkdir (pjoin minecraft_path ''mods'') w))))
              (abs_loc
                 (tree (process_links E (pjoin minecraft_path ''mods'') links
                          (snd (path_mkdir (pjoin minecraft_path ''mods'') w))))
                 (pjoin minecraft_path ''mods''))))"
proof -
  let ?m = "pjoin minecraft_path ''mods''"
  let ?w1 = "snd (path_mkdir ?m w)"
  have a: "loc_is_file (tree w) (str_loc (tree w) (cwd E) link) \<longrightarrow>
      net (process_link E mods_dir link w) = net w
    \<and> (\<forall>t. copy2 (tree w) (cwd E) link mods_dir = Inr t \<longrightarrow>
          process_link E mods_dir link w =
            print (Say (''Mod copied from '' @ link @ '' to '' @ path_str mods_dir))
              (w\<lparr>tree := t\<rparr>)
        \<and> (loc_is_dir (tree w) (abs_loc (tree w) mods_dir) \<longrightarrow>
            (\<exists>b. read_file (tree w) (str_loc (tree w) (cwd E) link) = Inr b
               \<and> write_file (tree w) (abs_loc (tree w) (mods_dir @ [basename link])) b = Inr t)))
    \<and> (\<forall>e. copy2 (tree w) (cwd E) link mods_dir = Inl e \<longrightarrow>
          process_link E mods_dir link w =
            print (Report (''Error copying mod from '' @ link @ '': '') e) w)"
    using copy2_Inr [of "tree w" "cwd E" link mods_dir]
    by (auto simp: process_link_def print_def split: sum.splits)
  have b: "read_file (tree w) (str_loc (tree w) (cwd E) link) = Inr b
      \<and> keep_href (Some link) \<and> resolved mods_dir
      \<and> loc_is_dir (tree w) (abs_loc (tree w) mods_dir)
      \<and> node_at (tree w) (mods_dir @ [basename link]) \<noteq> Some Dir
      \<and> str_loc (tree w) (cwd E) link \<noteq> Inr (mods_dir @ [basename link]) \<longrightarrow>
        process_link E mods_dir link w =
          w\<lparr>tree := AList.update (mods_dir @ [basename link]) (File b) (tree w),
            out := out w @ [Say (''Mod copied from '' @ link @ '' to '' @ path_str mods_dir)]\<rparr>
      \<and> read_file (AList.update (mods_dir @ [basename link]) (File b) (tree w))
          (abs_loc (AList.update (mods_dir @ [basename link]) (File b) (tree w))
             (mods_dir @ [basename link])) = Inr b"
    using process_link_copied [of w E link b mods_dir] by blast
  have c: "\<not> loc_is_file (tree w) (str_loc (tree w) (cwd E) link) \<and> startswith link ''http'' \<longrightarrow>
        net (process_link E mods_dir link w) = net w @ [link]
      \<and> (\<exists>msg. out (process_link E mods_dir link w) =
             out w @ [Say (''Downloading mod from '' @ link @ ''...''), msg]
         \<and> ((msg = Say (''Mod '' @ path_name link @ '' downloaded successfully!'')
              \<and> (\<exists>chunks. http_get E link = Some (200, chunks, True)
                   \<and> write_file (tree w) (abs_loc (tree w) (pjoin mods_dir (path_name link)))
                        (concat chunks) = Inr (tree (process_link E mods_dir link w))))
            \<or> ((\<exists>e. msg = Report (''Error downloading mod from '' @ link @ '': '') e)
                \<or> (\<exists>c. c \<noteq> 200 \<and>
                      msg = SayNum (''Failed to download mod from '' @ link
                                     @ ''. Status code: '') c))))"
    using process_link_download [of w E link mods_dir] by blast
  have d: "\<not> loc_is_file (tree w) (str_loc (tree w) (cwd E) link) \<and> startswith link ''http''
      \<and> http_get E link = Some (200, chunks, whole) \<longrightarrow>
        (\<forall>t. write_file (tree w) (abs_loc (tree w) (pjoin mods_dir (path_name link)))
                (concat chunks) = Inr t \<longrightarrow>
            process_link E mods_dir link w =
              w\<lparr>tree := t, net := net w @ [link],
                out := out w @
                  [Say (''Downloading mod from '' @ link @ ''...''),
                   if whole then Say (''Mod '' @ path_name link @ '' downloaded successfully!'')
                   else Report (''Error downloading mod from '' @ link @ '': '') RequestException]\<rparr>)
       \<and> (\<forall>e. write_file (tree w) (abs_loc (tree w) (pjoin mods_dir (path_name link)))
                (concat chunks) = Inl e \<longrightarrow>
            process_link E mods_dir link w =
              w\<lparr>net := net w @ [link],
                out := out w @
                  [Say (''Downloading mod from '' @ link @ ''...''),
                   Report (''Error downloading mod from '' @ link @ '': '') e]\<rparr>)"
    using process_link_status_200 [of w E link chunks whole mods_dir] by blast
  have e: "\<not> loc_is_file (tree w) (str_loc (tree w) (cwd E) link) \<and> startswith link ''http''
      \<and> http_get E link = Some (200, chunks, whole)
      \<and> keep_href (Some link) \<and> resolved mods_dir
      \<and> loc_is_dir (tree w) (abs_loc (tree w) mods_dir)
      \<and> node_at (tree w) (mods_dir @ [path_name link]) \<noteq> Some Dir \<longrightarrow>
        tree (process_link E mods_dir link w) =
          AList.update (mods_dir @ [path_name link]) (File (concat chunks)) (tree w)
      \<and> read_file (tree (process_link E mods_dir link w))
          (abs_loc (tree (process_link E mods_dir link w)) (mods_dir @ [path_name link])) =
          Inr (concat chunks)"
    using process_link_written [of w E link chunks whole mods_dir] by blast
  have f: "\<not> loc_is_file (tree w) (str_loc (tree w) (cwd E) link) \<and> startswith link ''http'' \<longrightarrow>
        (\<forall>c cs wh. http_get E link = Some (c, cs, wh) \<and> c \<noteq> 200 \<longrightarrow>
            process_link E mods_dir link w =
              w\<lparr>net := net w @ [link],
                out := out w @
                  [Say (''Downloading mod from '' @ link @ ''...''),
                   SayNum (''Failed to download mod from '' @ link @ ''. Status code: '') c]\<rparr>)
       \<and> (http_get E link = None \<longrightarrow>
            process_link E mods_dir link w =
              w\<lparr>net := net w @ [link],
                out := out w @
                  [Say (''Downloading mod from '' @ link @ ''...''),
                   Report (''Error downloading mod from '' @ link @ '': '') RequestException]\<rparr>)"
    using process_link_refused [of w E link mods_dir] by blast
  have g: "plain_name n \<longrightarrow> path_name (s @ ''/'' @ n) = n"
    using path_name_last_segment [of n s] by blast
  have h: "keep_href (Some link) \<longrightarrow> plain_name (path_name link) \<and> path_name link = basename link"
    using collected_name [of link] by simp
  have i: "\<not> loc_is_file (tree w) (str_loc (tree w) (cwd E) link) \<and> \<not> startswith link ''http'' \<longrightarrow>
        process_link E mods_dir link w = print (Say (''Unsupported link type: '' @ link)) w"
    using process_link_unsupported [of w E link mods_dir] by blast
  have j: "process_links E mods_dir (links @ link # links') w =
       process_links E mods_dir links'
         (process_link E mods_dir link (process_links E mods_dir links w))"
    by (simp add: process_links_append)
  have k: "stdin (process_links E mods_dir links w) = stdin w"
    by (rule process_links_stdin)
  have l: "grows (tree w) (tree (process_links E mods_dir links w))"
    by (rule process_links_grows)
  have m1: "fst (path_mkdir ?m w) = None \<Longrightarrow>
        install_from_anchors E anchors minecraft_path pack_name w =
          update_launcher_profiles E (profiles_path minecraft_path) pack_name
            (path_str minecraft_path) (mods_installed_message pack_name)
            (process_links E ?m (find_mod_links anchors) ?w1)
      \<and> (\<exists>ms. out (snd (install_from_anchors E anchors minecraft_path pack_name w)) =
             out (process_links E ?m (find_mod_links anchors) ?w1)
             @ Say ''Updating launcher profile...'' # ms)"
    using install_from_anchors_run [of minecraft_path w E anchors pack_name]
      update_launcher_profiles_out [of E "profiles_path minecraft_path" pack_name
        "path_str minecraft_path" "mods_installed_message pack_name"
        "process_links E ?m (find_mod_links anchors) ?w1"]
    by simp
  have m2: "fst (path_mkdir ?m w) = None \<Longrightarrow> resolved minecraft_path \<Longrightarrow>
       loc_is_dir (tree (process_links E ?m links ?w1))
         (abs_loc (tree (process_links E ?m links ?w1)) ?m)"
  proof -
    assume n: "fst (path_mkdir ?m w) = None" and r: "resolved minecraft_path"
    have rm: "resolved ?m" using r by (simp add: pjoin_literals)
    from n have "path_mkdir ?m w = (None, ?w1)"
      by (cases "path_mkdir ?m w") auto
    from path_mkdir_made [OF this rm]
    have "loc_is_dir (tree ?w1) (abs_loc (tree ?w1) ?m)"
      using rm by (simp add: abs_loc_reachable loc_is_dir_def)
    from loc_is_dir_grows [OF rm this process_links_grows]
    show ?thesis .
  qed
  have m: "fst (path_mkdir ?m w) = None \<longrightarrow>
        install_from_anchors E anchors minecraft_path pack_name w =
          update_launcher_profiles E (profiles_path minecraft_path) pack_name
            (path_str minecraft_path) (mods_installed_message pack_name)
            (process_links E ?m (find_mod_links anchors) ?w1)
      \<and> (\<exists>ms. out (snd (install_from_anchors E anchors minecraft_path pack_name w)) =
             out (process_links E ?m (find_mod_links anchors) ?w1)
             @ Say ''Updating launcher profile...'' # ms)
      \<and> (resolved minecraft_path \<longrightarrow>
            loc_is_dir (tree (process_links E ?m links ?w1))
              (abs_loc (tree (process_links E ?m links ?w1)) ?m))"
    using m1 m2 by blast
  show ?thesis
    by (intro conjI a b c d e f g h i j k l m)
qed

theorem scrape_links_dispatch_witness:
  "read_file (tree scrape_world) (str_loc (tree scrape_world) (cwd scrape_env) ''http.jar'') =
     Inr ''JAR''
   \<and> keep_href (Some ''http.jar'')
   \<and> loc_is_dir (tree scrape_world) (abs_loc (tree scrape_world) [''r'', ''mods''])
   \<and> process_link scrape_env [''r'', ''mods''] ''http.jar'' scrape_world =
       scrape_world
         \<lparr>tree := AList.update ([''r'', ''mods''] @ [basename ''http.jar'']) (File ''JAR'')
                    (tree scrape_world),
          out := out scrape_world @
            [Say (''Mod copied from '' @ ''http.jar'' @ '' to '' @ path_str [''r'', ''mods''])]\<rparr>
   \<and> basename ''http.jar'' = ''http.jar''
   \<and> \<not> loc_is_file (tree scrape_world)
         (str_loc (tree scrape_world) (cwd scrape_env) ''http://host/b.zip'')
   \<and> startswith ''http://host/b.zip'' ''http''
   \<and> http_get scrape_env ''http://host/b.zip'' = Some (200, [''B1'', ''B2''], True)
   \<and> keep_href (Some ''http://host/b.zip'')
   \<and> path_name ''http://host/b.zip'' = ''b.zip''
   \<and> tree (process_link scrape_env [''r'', ''mods''] ''http://host/b.zip'' scrape_world) =
       AList.update ([''r'', ''mods''] @ [path_name ''http://host/b.zip''])
         (File (concat [''B1'', ''B2''])) (tree scrape_world)
   \<and> read_file (tree (process_link scrape_env [''r'', ''mods''] ''http://host/b.zip'' scrape_world))
       (abs_loc (tree (process_link scrape_env [''r'', ''mods''] ''http://host/b.zip'' scrape_world))
          ([''r'', ''mods''] @ [path_name ''http://host/b.zip''])) = Inr (concat [''B1'', ''B2''])
   \<and> net (process_link scrape_env [''r'', ''mods''] ''http://host/b.zip'' scrape_world) =
       net scrape_world @ [''http://host/b.zip'']
   \<and> \<not> loc_is_file (tree scrape_world)
         (str_loc (tree scrape_world) (cwd scrape_env) ''http://host/gone.jar'')
   \<and> startswith ''http://host/gone.jar'' ''http''
   \<and> http_get scrape_env ''http://host/gone.jar'' = None
   \<and> process_link scrape_env [''r'', ''mods''] ''http://host/gone.jar'' scrape_world =
       scrape_world
         \<lparr>net := net scrape_world @ [''http://host/gone.jar''],
          out := out scrape_world @
            [Say (''Downloading mod from '' @ ''http://host/gone.jar'' @ ''...''),
             Report (''Error downloading mod from '' @ ''http://host/gone.jar'' @ '': '')
               RequestException]\<rparr>
   \<and> \<not> loc_is_file (tree scrape_world)
         (str_loc (tree scrape_world) (cwd scrape_env) ''ftp://host/c.jar'')
   \<and> \<not> startswith ''ftp://host/c.jar'' ''http''
   \<and> process_link scrape_env [''r'', ''mods''] ''ftp://host/c.jar'' scrape_world =
       print (Say (''Unsupported link type: '' @ ''ftp://host/c.jar'')) scrape_world
   \<and> resolved [''r'']
   \<and> fst (path_mkdir (pjoin [''r''] ''mods'') scrape_world) = None
   \<and> install_from_anchors scrape_env [Some ''http.jar'', Some ''http://host/b.zip'']
         [''r''] ''pk'' scrape_world =
       update_launcher_profiles scrape_env (profiles_path [''r'']) ''pk''
         (path_str [''r'']) (mods_installed_message ''pk'')
         (process_links scrape_env (pjoin [''r''] ''mods'')
            (find_mod_links [Some ''http.jar'', Some ''http://host/b.zip''])
            (snd (path_mkdir (pjoin [''r''] ''mods'') scrape_world)))
   \<and> process_links scrape_env [''r'', ''mods'']
         ([''http://host/gone.jar''] @ ''http.jar'' # [''http://host/b.zip'']) scrape_world =
       process_links scrape_env [''r'', ''mods''] [''http://host/b.zip'']
         (process_link scrape_env [''r'', ''mods''] ''http.jar''
            (process_links scrape_env [''r'', ''mods''] [''http://host/gone.jar''] scrape_world))"
proof -
  have f1: "read_file (tree scrape_world) (str_loc (tree scrape_world) (cwd scrape_env) ''http.jar'') =
     Inr ''JAR''"
    by (simp add: scrape_world_def scrape_env_def example_env_def read_file_def str_loc_def
          startswith_def node_at_def)
  have k1: "keep_href (Some ''http.jar'')"
    by (simp add: keep_href_simps endswith_def suffix_to_prefix)
  have b1: "basename ''http.jar'' = ''http.jar''"
    by (simp add: basename_def)
  have r: "resolved [''r'', ''mods'']" by simp
  have dm: "loc_is_dir (tree scrape_world) (abs_loc (tree scrape_world) [''r'', ''mods''])"
    by (simp add: scrape_world_def loc_is_dir_def abs_loc_def node_at_def)
  have n1: "node_at (tree scrape_world) ([''r'', ''mods''] @ [basename ''http.jar'']) \<noteq> Some Dir"
    by (simp add: b1 scrape_world_def node_at_def)
  have s1: "str_loc (tree scrape_world) (cwd scrape_env) ''http.jar'' \<noteq>
      Inr ([''r'', ''mods''] @ [basename ''http.jar''])"
    by (simp add: scrape_world_def scrape_env_def example_env_def str_loc_def startswith_def
          node_at_def)
  have f2: "\<not> loc_is_file (tree scrape_world)
         (str_loc (tree scrape_world) (cwd scrape_env) ''http://host/b.zip'')"
    by (simp add: scrape_world_def scrape_env_def example_env_def loc_is_file_def str_loc_def
          startswith_def node_at_def)
  have s2: "startswith ''http://host/b.zip'' ''http''"
    by (simp add: startswith_def)
  have g2: "http_get scrape_env ''http://host/b.zip'' = Some (200, [''B1'', ''B2''], True)"
    by (simp add: scrape_env_def)
  have k2: "keep_href (Some ''http://host/b.zip'')"
    by (simp add: keep_href_simps endswith_def suffix_to_prefix)
  have p2: "path_name ''http://host/b.zip'' = ''b.zip''"
    by (simp add: path_name_def py_parts_def)
  have n2: "node_at (tree scrape_world) ([''r'', ''mods''] @ [path_name ''http://host/b.zip'']) \<noteq>
      Some Dir"
    by (simp add: p2 scrape_world_def node_at_def)
  have f3: "\<not> loc_is_file (tree scrape_world)
         (str_loc (tree scrape_world) (cwd scrape_env) ''ftp://host/c.jar'')"
    by (simp add: scrape_world_def scrape_env_def example_env_def loc_is_file_def str_loc_def
          startswith_def node_at_def)
  have s3: "\<not> startswith ''ftp://host/c.jar'' ''http''"
    by (simp add: startswith_def)
  have f4: "\<not> loc_is_file (tree scrape_world)
         (str_loc (tree scrape_world) (cwd scrape_env) ''http://host/gone.jar'')"
    by (simp add: scrape_world_def scrape_env_def example_env_def loc_is_file_def str_loc_def
          startswith_def node_at_def)
  have s4: "startswith ''http://host/gone.jar'' ''http''"
    by (simp add: startswith_def)
  have g4: "http_get scrape_env ''http://host/gone.jar'' = None"
    by (simp add: scrape_env_def)
  have rr: "resolved [''r'']" by simp
  have m: "fst (path_mkdir (pjoin [''r''] ''mods'') scrape_world) = None"
    by (simp add: pjoin_literals path_mkdir_def mkdir_parents_dir scrape_world_def
          loc_is_dir_def abs_loc_def node_at_def)
  note t1 = scrape_links_dispatch
    [where w = scrape_world and E = scrape_env and link = "''http.jar''"
       and mods_dir = "[''r'', ''mods'']" and b = "''JAR''"
       and links = "[''http://host/gone.jar'']" and links' = "[''http://host/b.zip'']"
       and minecraft_path = "[''r'']"
       and anchors = "[Some ''http.jar'', Some ''http://host/b.zip'']" and pack_name = "''pk''"]
  note t2 = scrape_links_dispatch
    [where w = scrape_world and E = scrape_env and link = "''http://host/b.zip''"
       and mods_dir = "[''r'', ''mods'']" and chunks = "[''B1'', ''B2'']" and whole = True]
  note t3 = scrape_links_dispatch
    [where w = scrape_world and E = scrape_env and link = "''ftp://host/c.jar''"
       and mods_dir = "[''r'', ''mods'']"]
  note t4 = scrape_links_dispatch
    [where w = scrape_world and E = scrape_env and link = "''http://host/gone.jar''"
       and mods_dir = "[''r'', ''mods'']"]
  have h1: "read_file (tree scrape_world) (str_loc (tree scrape_world) (cwd scrape_env) ''http.jar'') =
       Inr ''JAR''
      \<and> keep_href (Some ''http.jar'') \<and> resolved [''r'', ''mods'']
      \<and> loc_is_dir (tree scrape_world) (abs_loc (tree scrape_world) [''r'', ''mods''])
      \<and> node_at (tree scrape_world) ([''r'', ''mods''] @ [basename ''http.jar'']) \<noteq> Some Dir
      \<and> str_loc (tree scrape_world) (cwd scrape_env) ''http.jar'' \<noteq>
          Inr ([''r'', ''mods''] @ [basename ''http.jar''])"
    by (intro conjI f1 k1 r dm n1 s1)
  note c1 = t1 [THEN conjunct2, THEN conjunct1, THEN mp, OF h1, THEN conjunct1]
  have h2: "\<not> loc_is_file (tree scrape_world)
         (str_loc (tree scrape_world) (cwd scrape_env) ''http://host/b.zip'')
      \<and> startswith ''http://host/b.zip'' ''http''
      \<and> http_get scrape_env ''http://host/b.zip'' = Some (200, [''B1'', ''B2''], True)
      \<and> keep_href (Some ''http://host/b.zip'') \<and> resolved [''r'', ''mods'']
      \<and> loc_is_dir (tree scrape_world) (abs_loc (tree scrape_world) [''r'', ''mods''])
      \<and> node_at (tree scrape_world) ([''r'', ''mods''] @ [path_name ''http://host/b.zip'']) \<noteq>
          Some Dir"
    by (intro conjI f2 s2 g2 k2 r dm n2)
  note c2 = t2 [THEN conjunct2, THEN conjunct2, THEN conjunct2, THEN conjunct2, THEN conjunct1, THEN mp, OF h2]
  have h2n: "\<not> loc_is_file (tree scrape_world)
         (str_loc (tree scrape_world) (cwd scrape_env) ''http://host/b.zip'')
      \<and> startswith ''http://host/b.zip'' ''http''"
    by (intro conjI f2 s2)
  note c2n = t2 [THEN conjunct2, THEN conjunct2, THEN conjunct1, THEN mp, OF h2n, THEN conjunct1]
  have h3: "\<not> loc_is_file (tree scrape_world)
         (str_loc (tree scrape_world) (cwd scrape_env) ''ftp://host/c.jar'')
      \<and> \<not> startswith ''ftp://host/c.jar'' ''http''"
    by (intro conjI f3 s3)
  note c3 = t3 [THEN conjunct2, THEN conjunct2, THEN conjunct2, THEN conjunct2, THEN conjunct2, THEN conjunct2, THEN conjunct2, THEN conjunct2, THEN conjunct1, THEN mp, OF h3]
  have h4: "\<not> loc_is_file (tree scrape_world)
         (str_loc (tree scrape_world) (cwd scrape_env) ''http://host/gone.jar'')
      \<and> startswith ''http://host/gone.jar'' ''http''"
    by (intro conjI f4 s4)
  note c4 = t4 [THEN conjunct2, THEN conjunct2, THEN conjunct2, THEN conjunct2, THEN conjunct2, THEN conjunct1, THEN mp, OF h4, THEN conjunct2, THEN mp, OF g4]
  note c5 = t1 [THEN conjunct2, THEN conjunct2, THEN conjunct2, THEN conjunct2, THEN conjunct2, THEN conjunct2, THEN conjunct2, THEN conjunct2, THEN conjunct2, THEN conjunct2, THEN conjunct2, THEN conjunct2, THEN mp, OF m, THEN conjunct1]
  note c6 = t1 [THEN conjunct2, THEN conjunct2, THEN conjunct2, THEN conjunct2, THEN conjunct2, THEN conjunct2, THEN conjunct2, THEN conjunct2, THEN conjunct2, THEN conjunct1]
  show ?thesis
    by (intro conjI f1 k1 dm c1 b1 f2 s2 g2 k2 p2 c2 [THEN conjunct1] c2 [THEN conjunct2] c2n
          f4 s4 g4 c4 f3 s3 c3 rr m c5 c6)
qed

subsection \<open>Paths with \<^verbatim>\<open>..\<close> in them\<close>

lemma walk_append:
  "walk t d (xs @ ys) = (case walk t d xs of Inl e \<Rightarrow> Inl e | Inr p \<Rightarrow> walk t p ys)"
  by (induction xs arbitrary: d) (auto split: option.splits node.splits)

lemma walk_errors:
  "walk t d cs = Inl e \<Longrightarrow> e = FileNotFoundError \<or> e = NotADirectoryError"
  by (induction cs arbitrary: d) (auto split: option.splits node.splits)

lemma walk_foldl:
  "walk t d cs = Inr p \<Longrightarrow>
   p = foldl (\<lambda>acc c. if c = [] \<or> c = ''.'' then acc
                        else if c = ''..'' then butlast acc else acc @ [c]) d cs"
  by (induction cs arbitrary: d) (auto split: option.splits node.splits)

lemma abs_loc_normpath: "abs_loc t raw = Inr p \<Longrightarrow> p = normpath raw"
  unfolding abs_loc_def normpath_def by (rule walk_foldl)

lemma resolved_foldl:
  "resolved acc \<Longrightarrow>
   resolved (foldl (\<lambda>acc c. if c = [] \<or> c = ''.'' then acc
                              else if c = ''..'' then butlast acc else acc @ [c]) acc p)"
  by (induction p arbitrary: acc) (simp_all add: resolved_butlast)

lemma resolved_normpath [simp]: "resolved (normpath p)"
  by (simp add: normpath_def resolved_foldl)

lemma normpath_append: "normpath (xs @ ys) = normpath (normpath xs @ ys)"
  by (simp add: normpath_def normpath_resolved_aux resolved_foldl)

lemma normpath_append_resolved: "resolved ys \<Longrightarrow> normpath (xs @ ys) = normpath xs @ ys"
  by (simp add: normpath_def normpath_resolved_aux)

lemma reachable_butlast_down: "reachable t d \<Longrightarrow> reachable t (butlast d)"
proof -
  assume r: "reachable t d"
  have "\<And>q. strict_prefix q (butlast d) \<Longrightarrow> strict_prefix q d"
    using prefixeq_butlast [of d] by (metis prefix_order.less_le_trans)
  with r show ?thesis by (simp add: reachable_def)
qed

lemma walk_reachable:
  "walk t d cs = Inr p \<Longrightarrow> reachable t d \<Longrightarrow> reachable t p"
proof (induction cs arbitrary: d)
  case Nil
  then show ?case by simp
next
  case (Cons c cs)
  from Cons.prems(1) have dir: "node_at t d = Some Dir"
    by (auto split: option.splits node.splits)
  let ?d = "if c = [] \<or> c = ''.'' then d else if c = ''..'' then butlast d else d @ [c]"
  from Cons.prems(1) dir have w: "walk t ?d cs = Inr p" by simp
  have "reachable t (d @ [c])"
    using Cons.prems(2) dir by (auto simp: reachable_snoc reachable_def strict_prefix_def)
  then have "reachable t ?d"
    using Cons.prems(2) by (simp add: reachable_butlast_down)
  from Cons.IH [OF w this] show ?case .
qed

lemma reachable_nil [simp]: "reachable t []"
  by (simp add: reachable_def)

lemma abs_loc_located:
  assumes "abs_loc t raw = Inr p"
  shows "p = normpath raw \<and> reachable t p \<and> resolved p \<and> abs_loc t p = Inr p"
proof -
  from abs_loc_normpath [OF assms] have p: "p = normpath raw" .
  from assms have r: "reachable t p"
    unfolding abs_loc_def by (rule walk_reachable) simp
  from p have "resolved p" by simp
  with p r show ?thesis by (simp add: abs_loc_reachable)
qed

lemma abs_loc_append:
  "abs_loc t (raw @ s) = (case abs_loc t raw of Inl e \<Rightarrow> Inl e | Inr p \<Rightarrow> walk t p s)"
  by (simp add: abs_loc_def walk_append)

lemma abs_loc_child:
  assumes "abs_loc t raw = Inr p" "node_at t p = Some Dir" "plain_name n"
  shows "abs_loc t (raw @ [n]) = Inr (p @ [n])"
  using assms by (simp add: abs_loc_append plain_name_def)

lemma walk_grows:
  "walk t d cs = Inr p \<Longrightarrow> grows t t' \<Longrightarrow> walk t' d cs = Inr p"
proof (induction cs arbitrary: d)
  case Nil
  then show ?case by simp
next
  case (Cons c cs)
  from Cons.prems(1) have dir: "node_at t d = Some Dir"
    by (auto split: option.splits node.splits)
  with Cons.prems(2) have dir': "node_at t' d = Some Dir"
    by (simp add: grows_def)
  from Cons.prems(1) dir Cons.IH Cons.prems(2) dir' show ?case by simp
qed

lemma loc_is_dir_grows_any:
  assumes "loc_is_dir t (abs_loc t raw)" "grows t t'"
  shows "loc_is_dir t' (abs_loc t' raw)"
proof -
  from assms(1) obtain p where p: "abs_loc t raw = Inr p" and d: "node_at t p = Some Dir"
    by (auto simp: loc_is_dir_def split: sum.splits)
  from p assms(2) have "abs_loc t' raw = Inr p"
    unfolding abs_loc_def by (rule walk_grows)
  moreover from d assms(2) have "node_at t' p = Some Dir" by (simp add: grows_def)
  ultimately show ?thesis by (simp add: loc_is_dir_def)
qed

lemma prefix_normpath:
  "prefix q (normpath raw) \<Longrightarrow> \<exists>ys. prefix ys raw \<and> normpath ys = q"
proof (induction raw arbitrary: q rule: rev_induct)
  case Nil
  then show ?case by (simp add: normpath_def)
next
  case (snoc c xs)
  have step: "normpath (xs @ [c]) =
      (if c = [] \<or> c = ''.'' then normpath xs
       else if c = ''..'' then butlast (normpath xs) else normpath xs @ [c])"
    by (simp add: normpath_def)
  show ?case
  proof (cases "prefix q (normpath xs)")
    case True
    from snoc.IH [OF this] show ?thesis by (metis prefix_prefix)
  next
    case False
    with snoc.prems step have "q = normpath (xs @ [c])"
      by (auto simp: prefix_snoc split: if_splits dest: prefix_order.trans [OF _ prefixeq_butlast])
    then show ?thesis by blast
  qed
qed

lemma os_mkdir_any:
  assumes "os_mkdir t (abs_loc t raw) = Inr t'"
  shows "t' = AList.update (normpath raw) Dir t \<and> node_at t (normpath raw) = None
     \<and> normpath raw \<noteq> [] \<and> abs_loc t raw = Inr (normpath raw)"
proof -
  from assms obtain p where p: "abs_loc t raw = Inr p"
    by (auto simp: os_mkdir_def split: sum.splits)
  with abs_loc_normpath [OF p] assms show ?thesis
    by (auto simp: os_mkdir_def split: option.splits)
qed

lemma update_dir_grows:
  assumes "node_at t p = None"
  shows "grows t (AList.update p Dir t)"
proof -
  from assms have "p \<noteq> []" by auto
  with assms show ?thesis by (auto simp: grows_def node_at_update)
qed

lemma mkdir_parents_any:
  "mkdir_parents t raw = Inr t' \<Longrightarrow>
   loc_is_dir t' (abs_loc t' raw)
   \<and> (\<forall>q. node_at t' q = node_at t q
          \<or> (node_at t q = None \<and> node_at t' q = Some Dir
              \<and> (\<exists>ys. prefix ys raw \<and> q = normpath ys)))"
proof (induction t raw arbitrary: t' rule: mkdir_parents.induct)
  case (1 t raw)
  have made: "\<And>s s'. os_mkdir s (abs_loc s raw) = Inr s' \<Longrightarrow>
      loc_is_dir s' (abs_loc s' raw)
      \<and> (\<forall>q. node_at s' q = node_at s q
          \<or> (node_at s q = None \<and> node_at s' q = Some Dir \<and> q = normpath raw))"
  proof -
    fix s s' assume m: "os_mkdir s (abs_loc s raw) = Inr s'"
    from os_mkdir_any [OF m]
    have s': "s' = AList.update (normpath raw) Dir s" and n: "node_at s (normpath raw) = None"
      and ne: "normpath raw \<noteq> []" and l: "abs_loc s raw = Inr (normpath raw)"
      by simp_all
    from update_dir_grows [OF n] have "grows s s'" by (simp add: s')
    with l have "abs_loc s' raw = Inr (normpath raw)"
      unfolding abs_loc_def by (rule walk_grows)
    then show "loc_is_dir s' (abs_loc s' raw)
      \<and> (\<forall>q. node_at s' q = node_at s q
          \<or> (node_at s q = None \<and> node_at s' q = Some Dir \<and> q = normpath raw))"
      using n ne by (auto simp: loc_is_dir_def s' node_at_update)
  qed
  show ?case
  proof (cases "os_mkdir t (abs_loc t raw)")
    case (Inr t1)
    with "1.prems" have "t' = t1" by (simp add: mkdir_parents.simps [of t raw])
    with made [OF Inr] show ?thesis by blast
  next
    case (Inl e)
    show ?thesis
    proof (cases "e = FileNotFoundError")
      case False
      with Inl "1.prems" have "loc_is_dir t (abs_loc t raw)" and "t' = t"
        by (auto simp: mkdir_parents.simps [of t raw] split: if_splits)
      then show ?thesis by simp
    next
      case True
      with Inl "1.prems" have ne: "raw \<noteq> []"
        by (auto simp: mkdir_parents.simps [of t raw] split: if_splits)
      from True Inl ne "1.prems" obtain t1 where
        t1: "mkdir_parents t (butlast raw) = Inr t1"
        by (auto simp: mkdir_parents.simps [of t raw] split: sum.splits)
      from "1.IH" [OF Inl True ne t1]
      have ih: "\<And>q. node_at t1 q = node_at t q
          \<or> (node_at t q = None \<and> node_at t1 q = Some Dir
              \<and> (\<exists>ys. prefix ys (butlast raw) \<and> q = normpath ys))"
        by blast
      have pb: "\<And>ys. prefix ys (butlast raw) \<Longrightarrow> prefix ys raw"
        by (metis ne append_butlast_last_id prefix_prefix)
      have ih': "\<And>q. node_at t1 q = node_at t q
          \<or> (node_at t q = None \<and> node_at t1 q = Some Dir
              \<and> (\<exists>ys. prefix ys raw \<and> q = normpath ys))"
        using ih pb by blast
      show ?thesis
      proof (cases "os_mkdir t1 (abs_loc t1 raw)")
        case (Inr t2)
        with True Inl ne t1 "1.prems" have "t' = t2"
          by (simp add: mkdir_parents.simps [of t raw])
        with made [OF Inr] ih' show ?thesis
          by (metis option.distinct(1) prefix_order.order_refl)
      next
        case (Inl e')
        with True \<open>os_mkdir t (abs_loc t raw) = Inl e\<close> ne t1 "1.prems"
        have "loc_is_dir t1 (abs_loc t1 raw)" and "t' = t1"
          by (auto simp: mkdir_parents.simps [of t raw] split: if_splits)
        with ih' show ?thesis by blast
      qed
    qed
  qed
qed

lemma mkdir_parents_grows_any: "mkdir_parents t raw = Inr t' \<Longrightarrow> grows t t'"
  unfolding grows_def using mkdir_parents_any by (metis option.distinct(1))

lemma mkdir_parents_located:
  assumes "mkdir_parents t raw = Inr t'"
  shows "abs_loc t' raw = Inr (normpath raw) \<and> node_at t' (normpath raw) = Some Dir
     \<and> reachable t' (normpath raw)"
proof -
  from mkdir_parents_any [OF assms] have "loc_is_dir t' (abs_loc t' raw)" by simp
  then obtain p where p: "abs_loc t' raw = Inr p" and d: "node_at t' p = Some Dir"
    by (auto simp: loc_is_dir_def split: sum.splits)
  from abs_loc_located [OF p] p d show ?thesis by auto
qed

lemma write_file_errors:
  "write_file t (abs_loc t p) b = Inl e \<Longrightarrow>
   e = FileNotFoundError \<or> e = NotADirectoryError \<or> e = IsADirectoryError"
  using walk_errors [of t "[]" p]
  by (auto simp: write_file_def abs_loc_def split: sum.splits option.splits node.splits)

lemma urlretrieve_cases:
  assumes "urlretrieve E u f w = (r, w')"
  shows "out w' = out w \<and> stdin w' = stdin w \<and> net w' = net w @ [u]
     \<and> ((tree w' = tree w \<and> r \<noteq> None \<and> r \<noteq> Some ContentTooShortError)
        \<or> (\<exists>b whole. fetch E u = Body b whole
              \<and> write_file (tree w) (abs_loc (tree w) f) b = Inr (tree w')
              \<and> r = (if whole then None else Some ContentTooShortError)))"
proof (cases "splittype (splittag u)")
  case None
  with assms have "r = Some ValueError" "w' = w\<lparr>net := net w @ [u]\<rparr>"
    by (simp_all add: urlretrieve_def Let_def)
  then show ?thesis by simp
next
  case (Some scheme)
  show ?thesis
  proof (cases "fetch E u")
    case Unreachable
    with Some assms have "r = Some URLError" "w' = w\<lparr>net := net w @ [u]\<rparr>"
      by (simp_all add: urlretrieve_def Let_def)
    then show ?thesis by simp
  next
    case (Body b whole)
    show ?thesis
    proof (cases "write_file (tree w) (abs_loc (tree w) f) b")
      case (Inl e)
      from write_file_errors [OF Inl] have e: "e \<noteq> ContentTooShortError" by auto
      from Inl Body Some assms have "r = Some e" "w' = w\<lparr>net := net w @ [u]\<rparr>"
        by (simp_all add: urlretrieve_def Let_def)
      with e show ?thesis by simp
    next
      case (Inr t)
      with Body Some assms
      have "r = (if whole then None else Some ContentTooShortError)"
        "w' = w\<lparr>net := net w @ [u], tree := t\<rparr>"
        by (simp_all add: urlretrieve_def Let_def)
      with Body Inr show ?thesis by simp
    qed
  qed
qed

lemma extract_member_normpath: "extract_member t dir m = extract_member t (normpath dir) m"
  by (simp add: extract_member_def normpath_append_resolved resolved_arc_parts normpath_resolved)

lemma extract_members_normpath: "extract_members t dir ms = extract_members t (normpath dir) ms"
proof (induction ms arbitrary: t)
  case Nil
  show ?case by simp
next
  case (Cons m ms)
  show ?case
    using Cons [of _] extract_member_normpath [of t dir m]
    by (simp split: sum.splits)
qed

lemma extractall_normpath: "extractall E t z dir = extractall E t z (normpath dir)"
  by (simp add: extractall_def extract_members_normpath [of t dir]
        split: sum.splits option.splits)

lemma extract_member_parts:
  assumes "extract_member t dir m = Inr t'" "resolved dir"
  shows "\<exists>t1. (t1 = t \<or> makedirs t (butlast (dir @ arc_parts (fst m))) = Inr t1)
     \<and> (if endswith (fst m) ''/''
         then t' = t1 \<or> os_mkdir t1 (abs_loc t1 (dir @ arc_parts (fst m))) = Inr t'
         else write_file t1 (abs_loc t1 (dir @ arc_parts (fst m))) (snd m) = Inr t')"
proof -
  have "normpath (dir @ arc_parts (fst m)) = dir @ arc_parts (fst m)"
    using assms(2) by (simp add: normpath_resolved resolved_arc_parts)
  with assms(1) show ?thesis
    by (auto simp: extract_member_def Let_def split: if_splits sum.splits)
qed

lemma extract_member_keeps:
  assumes "extract_member t dir m = Inr t'" "resolved dir" "node_at t q = Some n"
    and "q \<noteq> dir @ arc_parts (fst m) \<or> endswith (fst m) ''/''"
  shows "node_at t' q = Some n"
proof -
  let ?target = "dir @ arc_parts (fst m)"
  have rt: "resolved ?target"
    using assms(2) by (simp add: resolved_arc_parts)
  from extract_member_parts [OF assms(1,2)] obtain t1 where
    t1: "t1 = t \<or> makedirs t (butlast ?target) = Inr t1"
    and t': "if endswith (fst m) ''/''
         then t' = t1 \<or> os_mkdir t1 (abs_loc t1 ?target) = Inr t'
         else write_file t1 (abs_loc t1 ?target) (snd m) = Inr t'"
    by blast
  have 1: "node_at t1 q = Some n"
  proof (cases "t1 = t")
    case True
    with assms(3) show ?thesis by simp
  next
    case False
    with t1 have "makedirs t (butlast ?target) = Inr t1" by simp
    from makedirs_effect [OF this resolved_butlast [OF rt]] assms(3) show ?thesis
      by (metis option.distinct(1))
  qed
  show ?thesis
  proof (cases "endswith (fst m) ''/''")
    case True
    with t' have "t' = t1 \<or> os_mkdir t1 (abs_loc t1 ?target) = Inr t'" by simp
    with 1 show ?thesis
      using os_mkdir_effect [OF rt, of t1 t' q] by auto
  next
    case False
    with t' have "write_file t1 (abs_loc t1 ?target) (snd m) = Inr t'" by simp
    from write_file_effect [OF rt this, of q] False assms(4) 1 show ?thesis by simp
  qed
qed

lemma extract_member_written:
  assumes "extract_member t dir m = Inr t'" "resolved dir" "\<not> endswith (fst m) ''/''"
  shows "node_at t' (dir @ arc_parts (fst m)) = Some (File (snd m))"
proof -
  let ?target = "dir @ arc_parts (fst m)"
  have rt: "resolved ?target"
    using assms(2) by (simp add: resolved_arc_parts)
  from extract_member_parts [OF assms(1,2)] assms(3) obtain t1 where
    "write_file t1 (abs_loc t1 ?target) (snd m) = Inr t'"
    by auto
  from write_file_effect [OF rt this, of ?target] show ?thesis by simp
qed

lemma extract_members_keeps:
  assumes "extract_members t dir ms = (r, t')" "resolved dir" "node_at t q = Some n"
    and "\<forall>m \<in> set ms. q \<noteq> dir @ arc_parts (fst m) \<or> endswith (fst m) ''/''"
  shows "node_at t' q = Some n"
  using assms(1,3,4)
proof (induction ms arbitrary: t)
  case Nil
  then show ?case by simp
next
  case (Cons m ms)
  show ?case
  proof (cases "extract_member t dir m")
    case (Inl e)
    with Cons.prems show ?thesis by simp
  next
    case (Inr t1)
    with Cons.prems(1) have x: "extract_members t1 dir ms = (r, t')" by simp
    from Cons.prems(3) have "q \<noteq> dir @ arc_parts (fst m) \<or> endswith (fst m) ''/''" by simp
    from extract_member_keeps [OF Inr assms(2) Cons.prems(2) this]
    have "node_at t1 q = Some n" .
    from Cons.IH [OF x this] Cons.prems(3) show ?thesis by simp
  qed
qed

lemma extract_members_append:
  "extract_members t dir (xs @ ys) =
     (case extract_members t dir xs of
        (None, t1) \<Rightarrow> extract_members t1 dir ys
      | (Some e, t1) \<Rightarrow> (Some e, t1))"
  by (induction xs arbitrary: t) (auto split: sum.splits)

lemma extract_members_written:
  assumes "extract_members t dir (ms1 @ m # ms2) = (r, t')" "resolved dir"
    and "extract_members t dir (ms1 @ [m]) = (None, t1)"
    and "\<not> endswith (fst m) ''/''"
    and "\<forall>m' \<in> set ms2. arc_parts (fst m') \<noteq> arc_parts (fst m)"
  shows "node_at t' (dir @ arc_parts (fst m)) = Some (File (snd m))"
proof -
  obtain r0 t0 where x0: "extract_members t dir ms1 = (r0, t0)"
    by (cases "extract_members t dir ms1")
  with assms(3) have r0: "r0 = None" and m: "extract_member t0 dir m = Inr t1"
    by (auto simp: extract_members_append split: option.splits sum.splits)
  from extract_member_written [OF m assms(2,4)]
  have w: "node_at t1 (dir @ arc_parts (fst m)) = Some (File (snd m))" .
  have "ms1 @ m # ms2 = (ms1 @ [m]) @ ms2" by simp
  with assms(1,3) have x: "extract_members t1 dir ms2 = (r, t')"
    by (simp add: extract_members_append [of t dir "ms1 @ [m]" ms2] del: append_assoc)
  from assms(5) have "\<forall>m' \<in> set ms2. dir @ arc_parts (fst m) \<noteq> dir @ arc_parts (fst m')
      \<or> endswith (fst m') ''/''"
    by auto
  from extract_members_keeps [OF x assms(2) w this] show ?thesis .
qed

lemma extract_members_outside:
  assumes "extract_members t dir ms = (r, t')" "resolved dir"
    and "node_at t dir = Some Dir" "reachable t dir" "\<not> strict_prefix dir q"
  shows "node_at t' q = node_at t q"
proof (cases "prefix q dir")
  case True
  with assms(3,4) have "node_at t q = Some Dir"
    by (auto simp: reachable_def strict_prefix_def)
  moreover from extract_members_grows [OF assms(1,2)] this have "node_at t' q = Some Dir"
    by (simp add: grows_def)
  ultimately show ?thesis by simp
next
  case False
  moreover from False assms(5) have "\<not> prefix dir q"
    by (auto simp: strict_prefix_def)
  ultimately show ?thesis
    using extract_members_effect [OF assms(1,2)] by simp
qed

lemma extractall_cases:
  assumes "extractall E t z dir = (r, t')"
  shows "t' = t \<or> (\<exists>b ms intact r'. read_file t (abs_loc t z) = Inr b
            \<and> unzip E b = Some (ms, intact) \<and> extract_members t dir ms = (r', t'))"
proof (cases "read_file t (abs_loc t z)")
  case (Inl e)
  with assms show ?thesis by (simp add: extractall_def)
next
  case (Inr b)
  show ?thesis
  proof (cases "unzip E b")
    case None
    with Inr assms show ?thesis by (simp add: extractall_def)
  next
    case (Some a)
    obtain ms intact where a: "a = (ms, intact)" by (cases a)
    obtain r1 t1 where x: "extract_members t dir ms = (r1, t1)"
      by (cases "extract_members t dir ms")
    with Inr Some a assms have "t' = t1"
      by (auto simp: extractall_def split: option.splits if_splits)
    with Inr Some a x show ?thesis by blast
  qed
qed

end
